theory Spec2Isabelle
  imports Main
begin

section \<open>JavaScript values and string primitives\<close>

text \<open>
  The exporter is JavaScript. A property that holds a string, \<open>null\<close> or nothing at all
  is a \<open>jstr\<close>; a numeric property is an \<open>int option\<close> and an array-valued property
  that may be missing is a \<open>list option\<close>, \<open>None\<close> standing for a value that is not a
  number (not an array). Strings are lists of 8-bit code units. Arrays hold objects
  of the element type (no \<open>null\<close> entries).
\<close>

datatype jstr = Undefined | Null | Str string

text \<open>\<open>x || ''\<close> on a string-valued property.\<close>

fun or_empty :: "jstr \<Rightarrow> string" where
  "or_empty (Str s) = s"
| "or_empty _ = []"

text \<open>\<open>x || d\<close>: the value when it is a non-empty string, the default otherwise.\<close>

fun or_default :: "jstr \<Rightarrow> string \<Rightarrow> string" where
  "or_default (Str s) d = (if s = [] then d else s)"
| "or_default _ d = d"

text \<open>\<open>x || null\<close>.\<close>

fun or_null :: "jstr \<Rightarrow> jstr" where
  "or_null (Str s) = (if s = [] then Null else Str s)"
| "or_null _ = Null"

text \<open>A value interpolated into a template literal, \<open>`${x}`\<close>.\<close>

fun template :: "jstr \<Rightarrow> string" where
  "template Undefined = ''undefined''"
| "template Null = ''null''"
| "template (Str s) = s"

text \<open>\<open>n || d\<close> on a numeric property: zero and a missing value are falsy.\<close>

fun num_or :: "int option \<Rightarrow> int \<Rightarrow> int" where
  "num_or None d = d"
| "num_or (Some n) d = (if n = 0 then d else n)"

text \<open>White space as \<open>String.prototype.trim\<close> and the class \<open>\s\<close> see it (code units below 256).\<close>

definition is_space :: "char \<Rightarrow> bool" where
  "is_space c \<longleftrightarrow>
     c \<in> set [CHR 0x09, CHR 0x0A, CHR 0x0B, CHR 0x0C, CHR 0x0D, CHR 0x20, CHR 0xA0]"

definition trim :: "string \<Rightarrow> string" where
  "trim s = rev (dropWhile is_space (rev (dropWhile is_space s)))"

text \<open>\<open>s.split(/\s+/)\<close>: the pieces between maximal runs of white space.\<close>

function split_ws_from :: "string \<Rightarrow> string \<Rightarrow> string list" where
  "split_ws_from cur [] = [rev cur]"
| "split_ws_from cur (c # cs) =
     (if is_space c then rev cur # split_ws_from [] (dropWhile is_space cs)
      else split_ws_from (c # cur) cs)"
  by pat_completeness auto
termination
  by (relation "measure (\<lambda>(cur, s). length s)")
     (auto simp: le_imp_less_Suc length_dropWhile_le)

definition split_ws :: "string \<Rightarrow> string list" where
  "split_ws s = split_ws_from [] s"

text \<open>\<open>s.split(/\s+/).filter(Boolean).length\<close>.\<close>

definition countWords :: "string \<Rightarrow> int" where
  "countWords s = int (length (filter (\<lambda>w. w \<noteq> []) (split_ws s)))"

text \<open>\<open>s.split(sep)\<close> for a one-character separator, and \<open>.pop()\<close> of the result.\<close>

fun split_on_from :: "char \<Rightarrow> string \<Rightarrow> string \<Rightarrow> string list" where
  "split_on_from sep cur [] = [rev cur]"
| "split_on_from sep cur (c # cs) =
     (if c = sep then rev cur # split_on_from sep [] cs
      else split_on_from sep (c # cur) cs)"

definition split_on :: "char \<Rightarrow> string \<Rightarrow> string list" where
  "split_on sep s = split_on_from sep [] s"

text \<open>\<open>s.toLowerCase()\<close> on code units below 256.\<close>

definition lower_char :: "char \<Rightarrow> char" where
  "lower_char c =
     (case map_of (zip ''ABCDEFGHIJKLMNOPQRSTUVWXYZ'' ''abcdefghijklmnopqrstuvwxyz'') c of
        Some l \<Rightarrow> l
      | None \<Rightarrow>
          (let n = (of_char c :: nat)
           in if 192 \<le> n \<and> n \<le> 222 \<and> n \<noteq> 215 then char_of (n + 32) else c))"

definition toLowerCase :: "string \<Rightarrow> string" where
  "toLowerCase s = map lower_char s"

text \<open>\<open>String(n)\<close> for an integer.\<close>

definition digit_char :: "nat \<Rightarrow> char" where
  "digit_char d = char_of (48 + d)"

function string_of_nat :: "nat \<Rightarrow> string" where
  "string_of_nat n =
     (if n < 10 then [digit_char n] else string_of_nat (n div 10) @ [digit_char (n mod 10)])"
  by pat_completeness auto
termination
  by (relation "measure id") auto

definition string_of_int :: "int \<Rightarrow> string" where
  "string_of_int i = (if i < 0 then CHR ''-'' # string_of_nat (nat (- i)) else string_of_nat (nat i))"

text \<open>\<open>xs.slice(a, b)\<close>: negative indices count from the end, everything is clamped.\<close>

definition js_slice :: "'a list \<Rightarrow> int \<Rightarrow> int \<Rightarrow> 'a list" where
  "js_slice xs a b =
     (let n = int (length xs);
          from = (if a < 0 then max (n + a) 0 else min a n);
          to = (if b < 0 then max (n + b) 0 else min b n)
      in take (nat (to - from)) (drop (nat from) xs))"

section \<open>The conversation document\<close>

record link_ref =
  link_url :: jstr
  link_title :: jstr
  link_domain :: jstr

text \<open>Attachments and documents have the same shape.\<close>

record file_ref =
  file_name :: jstr
  file_url :: jstr
  file_type :: jstr
  file_sizeLabel :: jstr

record citation_ref =
  cit_text :: jstr
  cit_url :: jstr

record reference_set =
  links :: "link_ref list"
  attachments :: "file_ref list"
  documents :: "file_ref list"
  citations :: "citation_ref list"

section \<open>Signature-based deduplication and merging of reference sets\<close>

text \<open>
  \<open>UniversalExtractor.dedupeObjectsBySignature\<close>: one pass over the items with the set
  of signatures seen so far; an item whose signature is empty or already seen is skipped.
\<close>

fun dedupe_from :: "('a \<Rightarrow> string) \<Rightarrow> string set \<Rightarrow> 'a list \<Rightarrow> 'a list" where
  "dedupe_from buildSignature seen [] = []"
| "dedupe_from buildSignature seen (item # items) =
     (let signature = buildSignature item
      in if signature = [] \<or> signature \<in> seen then dedupe_from buildSignature seen items
         else item # dedupe_from buildSignature (insert signature seen) items)"

definition dedupeObjectsBySignature :: "'a list \<Rightarrow> ('a \<Rightarrow> string) \<Rightarrow> 'a list" where
  "dedupeObjectsBySignature items buildSignature = dedupe_from buildSignature {} items"

text \<open>The four signatures of \<open>mergeReferences\<close> (the link's URL is interpolated as it is).\<close>

definition merge_link_sig :: "link_ref \<Rightarrow> string" where
  "merge_link_sig item = template (link_url item) @ ''|'' @ or_empty (link_title item)"

definition file_sig :: "file_ref \<Rightarrow> string" where
  "file_sig item =
     or_empty (file_name item) @ ''|'' @ or_empty (file_url item) @ ''|'' @ or_empty (file_type item)"

definition citation_sig :: "citation_ref \<Rightarrow> string" where
  "citation_sig item = or_empty (cit_text item) @ ''|'' @ or_empty (cit_url item)"

text \<open>
  \<open>mergeReferences(...referenceSets)\<close>: the sets that are objects are concatenated list
  by list, then each list is deduplicated. \<open>None\<close> is an argument that is not an object.
\<close>

definition mergeReferences :: "reference_set option list \<Rightarrow> reference_set" where
  "mergeReferences referenceSets =
     (let sets = List.map_filter id referenceSets
      in \<lparr> links = dedupeObjectsBySignature (concat (map links sets)) merge_link_sig,
           attachments = dedupeObjectsBySignature (concat (map attachments sets)) file_sig,
           documents = dedupeObjectsBySignature (concat (map documents sets)) file_sig,
           citations = dedupeObjectsBySignature (concat (map citations sets)) citation_sig \<rparr>)"

text \<open>The binary merge of the data model.\<close>

definition merge :: "reference_set \<Rightarrow> reference_set \<Rightarrow> reference_set" where
  "merge A B = mergeReferences [Some A, Some B]"

text \<open>A reference set whose four lists are already deduplicated by their signatures.\<close>

definition deduplicated :: "reference_set \<Rightarrow> bool" where
  "deduplicated A \<longleftrightarrow>
     distinct (map merge_link_sig (links A)) \<and> distinct (map file_sig (attachments A)) \<and>
     distinct (map file_sig (documents A)) \<and> distinct (map citation_sig (citations A))"

section \<open>Scope resolution\<close>

text \<open>
  The export options. \<open>scopeStart\<close> and \<open>scopeEnd\<close> hold the integer that \<open>parseInt\<close>
  reads from the option's text, \<open>None\<close> when it reads no number.
\<close>

record export_options =
  scope :: jstr
  scopeStart :: "int option"
  scopeEnd :: "int option"
  includeThinking :: bool
  includeMetadata :: bool
  includeHtml :: bool
  redactSensitive :: bool

definition parsePositiveInt :: "int option \<Rightarrow> int option" where
  "parsePositiveInt parsed = (case parsed of None \<Rightarrow> None | Some n \<Rightarrow> if n > 0 then Some n else None)"

text \<open>\<open>parsePositiveInt(v) || d\<close>.\<close>

definition positive_or :: "int option \<Rightarrow> int \<Rightarrow> int" where
  "positive_or parsed d = num_or (parsePositiveInt parsed) d"

record message_range =
  range_start :: int
  range_end :: int
  range_label :: string

definition resolveMessageRange :: "export_options \<Rightarrow> int \<Rightarrow> message_range" where
  "resolveMessageRange options totalMessages =
     (let scope = or_default (scope options) ''all''
      in if scope = ''single'' then
           (let index = positive_or (scopeStart options) totalMessages;
                oneBased = min totalMessages (max 1 index)
            in \<lparr> range_start = oneBased - 1, range_end = oneBased - 1,
                 range_label = ''message-'' @ string_of_int oneBased \<rparr>)
         else if scope = ''range'' then
           (let start = positive_or (scopeStart options) 1;
                end = positive_or (scopeEnd options) totalMessages;
                clampedStart = min totalMessages (max 1 start);
                clampedEnd = min totalMessages (max clampedStart end)
            in \<lparr> range_start = clampedStart - 1, range_end = clampedEnd - 1,
                 range_label = ''range-'' @ string_of_int clampedStart @ ''-'' @ string_of_int clampedEnd \<rparr>)
         else \<lparr> range_start = 0, range_end = totalMessages - 1, range_label = ''all'' \<rparr>)"

text \<open>The options of a range request \<open>range(a, b)\<close>, everything else switched off.\<close>

definition range_options :: "int \<Rightarrow> int \<Rightarrow> export_options" where
  "range_options a b =
     \<lparr> scope = Str ''range'', scopeStart = Some a, scopeEnd = Some b,
       includeThinking = False, includeMetadata = False, includeHtml = False,
       redactSensitive = False \<rparr>"

declare string_of_nat.simps [simp del]

section \<open>Blocks, messages and export data\<close>

text \<open>
  JSON values. An object is the list of its own properties in the order in which they
  were created. They stand for the properties that the export code neither reads nor
  writes and copies as they are.
\<close>

datatype json =
    JNull
  | JBool bool
  | JNum int
  | JStr string
  | JArr "json list"
  | JObj "(string \<times> json) list"

text \<open>Type-specific structured data of a trace block.\<close>

record search_result =
  sr_title :: string
  sr_url :: jstr
  sr_domain :: jstr

record web_search_data =
  queries :: "string list"
  results :: "search_result list"

datatype structured =
    WebSearchData web_search_data
  | ToolCallData string "string list" "string list"
  | PromptChainData "string list"

record block =
  b_id :: jstr
  b_type :: jstr
  b_summary :: jstr
  b_content :: jstr
  b_wordCount :: "int option"
  b_characterCount :: "int option"
  b_html :: jstr
  b_richHtml :: jstr
  b_structuredData :: "structured option"
  b_references :: "reference_set option"
  b_expanded :: "bool option"
  b_other :: "(string \<times> json) list"

record message =
  m_id :: jstr
  m_author :: jstr
  m_content :: jstr
  m_html :: jstr
  m_timestamp :: jstr
  m_wordCount :: "int option"
  m_characterCount :: "int option"
  m_thinkingBlocks :: "block list option"
  m_references :: "reference_set option"
  m_other :: "(string \<times> json) list"

record uploaded_document =
  ud_messageId :: jstr
  ud_author :: string
  ud_name :: string
  ud_type :: string
  ud_url :: jstr
  ud_sizeLabel :: jstr

record reference_index = reference_set +
  ri_total :: "int option"

text \<open>
  A counter table is an object created as \<open>{}\<close> and filled by
  \<open>acc[type] = (acc[type] || 0) + 1\<close>. An entry is a number, or, for a key that names a member
  inherited from \<open>Object.prototype\<close>, the string that \<open>+ 1\<close> makes of that member:
  \<open>Inherited k n\<close> is the text of the member \<open>k\<close> followed by \<open>n\<close> characters \<open>1\<close>.
\<close>

datatype tally = Count int | Inherited string nat

text \<open>The summary that the extractor's \<open>postProcess\<close> leaves in the metadata.\<close>

record conversation_summary =
  cs_firstMessage :: jstr
  cs_lastMessage :: jstr
  cs_duration :: json

text \<open>
  The metadata object. The properties that the extractor's constructor and \<open>postProcess\<close>
  and the export code write have a field each; \<open>md_other\<close> holds the remaining ones
  (\<open>exporterVersion\<close>, \<open>userAgent\<close>, \<open>conversationId\<close>, the model name and the table of the
  platform), which are only copied.
\<close>

record metadata =
  md_platform :: jstr
  md_url :: jstr
  md_title :: jstr
  md_rawDocumentTitle :: jstr
  md_exportDate :: jstr
  md_messageCount :: "int option"
  md_thinkingBlockCount :: "int option"
  md_hasThinkingBlocks :: "bool option"
  md_totalWordCount :: "int option"
  md_totalCharacterCount :: "int option"
  md_userMessageCount :: "int option"
  md_assistantMessageCount :: "int option"
  md_conversationSummary :: "conversation_summary option"
  md_scope :: jstr
  md_blockTypeBreakdown :: "(string \<times> tally) list option"
  md_referenceIndex :: "reference_index option"
  md_referenceCount :: "int option"
  md_linkCount :: "int option"
  md_attachmentCount :: "int option"
  md_citationCount :: "int option"
  md_uploadedDocuments :: "uploaded_document list option"
  md_uploadedDocumentCount :: "int option"
  md_other :: "(string \<times> json) list"

text \<open>The object \<open>{}\<close> as metadata.\<close>

definition empty_metadata :: metadata where
  "empty_metadata =
     \<lparr> md_platform = Undefined, md_url = Undefined, md_title = Undefined,
       md_rawDocumentTitle = Undefined, md_exportDate = Undefined, md_messageCount = None,
       md_thinkingBlockCount = None, md_hasThinkingBlocks = None, md_totalWordCount = None,
       md_totalCharacterCount = None, md_userMessageCount = None,
       md_assistantMessageCount = None, md_conversationSummary = None,
       md_scope = Undefined, md_blockTypeBreakdown = None, md_referenceIndex = None,
       md_referenceCount = None, md_linkCount = None, md_attachmentCount = None,
       md_citationCount = None, md_uploadedDocuments = None, md_uploadedDocumentCount = None,
       md_other = [] \<rparr>"

record raw_html =
  rh_original :: jstr
  rh_expanded :: jstr

text \<open>The property \<open>rawHtml\<close>: missing, \<open>null\<close>, or an object.\<close>

datatype raw_html_field = NoRawHtml | NullRawHtml | RawHtml raw_html

record export_data =
  ed_messages :: "message list option"
  ed_thinkingBlocks :: "block list option"
  ed_metadata :: "metadata option"
  ed_rawHtml :: raw_html_field

datatype error = Error string

section \<open>Reference index and uploaded documents\<close>

definition empty_reference_set :: reference_set where
  "empty_reference_set = \<lparr> links = [], attachments = [], documents = [], citations = [] \<rparr>"

text \<open>\<open>normalizeReferenceSet\<close>: a fresh object with the four lists, empty where missing.\<close>

definition normalizeReferenceSet :: "reference_set option \<Rightarrow> reference_set" where
  "normalizeReferenceSet refs =
     (case refs of None \<Rightarrow> empty_reference_set
      | Some r \<Rightarrow> \<lparr> links = links r, attachments = attachments r,
                    documents = documents r, citations = citations r \<rparr>)"

text \<open>\<open>ExportInterface.dedupeBySignature\<close>, the same loop as in the extractor.\<close>

definition dedupeBySignature :: "'a list \<Rightarrow> ('a \<Rightarrow> string) \<Rightarrow> 'a list" where
  "dedupeBySignature items signatureFn = dedupe_from signatureFn {} items"

definition index_link_sig :: "link_ref \<Rightarrow> string" where
  "index_link_sig item = or_empty (link_url item) @ ''|'' @ or_empty (link_title item)"

definition computeReferenceIndexFromMessages :: "message list \<Rightarrow> reference_index" where
  "computeReferenceIndexFromMessages messages =
     (let refs = map (\<lambda>message. normalizeReferenceSet (m_references message)) messages;
          combined_links = dedupeBySignature (concat (map links refs)) index_link_sig;
          combined_attachments = dedupeBySignature (concat (map attachments refs)) file_sig;
          combined_documents = dedupeBySignature (concat (map documents refs)) file_sig;
          combined_citations = dedupeBySignature (concat (map citations refs)) citation_sig
      in \<lparr> links = combined_links, attachments = combined_attachments,
           documents = combined_documents, citations = combined_citations,
           ri_total = Some (int (length combined_links) + int (length combined_attachments)
                          + int (length combined_documents) + int (length combined_citations)) \<rparr>)"

text \<open>The uploaded document built from one attachment or document of a user message.\<close>

definition uploaded_from :: "message \<Rightarrow> file_ref \<Rightarrow> uploaded_document option" where
  "uploaded_from message item =
     (let name = trim (or_empty (file_name item));
          url = or_null (file_url item);
          type = or_default (file_type item) ''file''
      in if name = [] \<and> url = Null then None
         else Some \<lparr> ud_messageId = or_null (m_id message),
                     ud_author = ''user'',
                     ud_name = (if name \<noteq> [] then name
                                else if url \<noteq> Null then last (split_on CHR ''/'' (template url))
                                else ''document''),
                     ud_type = type,
                     ud_url = url,
                     ud_sizeLabel = or_null (file_sizeLabel item) \<rparr>)"

definition uploaded_sig :: "uploaded_document \<Rightarrow> string" where
  "uploaded_sig item =
     or_empty (ud_messageId item) @ ''|'' @ ud_name item @ ''|'' @ or_empty (ud_url item)
       @ ''|'' @ ud_type item @ ''|'' @ or_empty (ud_sizeLabel item)"

definition computeUploadedDocumentsFromMessages :: "message list \<Rightarrow> uploaded_document list" where
  "computeUploadedDocumentsFromMessages messages =
     (let docs = concat (map (\<lambda>message.
                   if toLowerCase (or_empty (m_author message)) \<noteq> ''user'' then []
                   else (let refs = normalizeReferenceSet (m_references message)
                         in List.map_filter (uploaded_from message)
                              (attachments refs @ documents refs))) messages)
      in dedupeBySignature docs uploaded_sig)"

text \<open>The members that every object inherits from \<open>Object.prototype\<close>.\<close>

definition inherited_members :: "string list" where
  "inherited_members =
     [''constructor'', ''hasOwnProperty'', ''isPrototypeOf'', ''propertyIsEnumerable'',
      ''toLocaleString'', ''toString'', ''valueOf'', ''__defineGetter__'', ''__defineSetter__'',
      ''__lookupGetter__'', ''__lookupSetter__'', ''__proto__'']"

text \<open>\<open>(v || 0) + 1\<close> for an entry \<open>v\<close> of the table.\<close>

fun plus_one :: "tally \<Rightarrow> tally" where
  "plus_one (Count n) = Count (n + 1)"
| "plus_one (Inherited k n) = Inherited k (Suc n)"

text \<open>
  \<open>acc[k] = (acc[k] || 0) + 1\<close>. A key that the table has keeps its place. A new key is
  added at the end: with 1, or, when \<open>acc[k]\<close> finds an inherited member, with the string
  made of it. The assignment to \<open>__proto__\<close> calls the inherited setter, which ignores a
  string, so that key never enters the table.
\<close>

fun bump :: "(string \<times> tally) list \<Rightarrow> string \<Rightarrow> (string \<times> tally) list" where
  "bump [] k =
     (if k = ''__proto__'' then []
      else if k \<in> set inherited_members then [(k, Inherited k 1)]
      else [(k, Count 1)])"
| "bump ((k', v) # acc) k = (if k' = k then (k', plus_one v) # acc else (k', v) # bump acc k)"

text \<open>
  The counter table of block types: \<open>acc[type] = (acc[type] || 0) + 1\<close> over the blocks,
  with \<open>type = block.type || 'thinking'\<close>.
\<close>

definition blockTypeTally :: "block list \<Rightarrow> (string \<times> tally) list" where
  "blockTypeTally blocks = foldl (\<lambda>acc block. bump acc (or_default (b_type block) ''thinking'')) [] blocks"

text \<open>
  Numbers. A JavaScript number is a double; the counts of this model are integers, and
  the sum of two of them is rounded to the nearest integer that a double holds (53
  significant bits, ties to even). Sums of \<open>2 ^ 1024\<close> and more, which are \<open>Infinity\<close> in
  the code, are not modelled.
\<close>

fun width :: "nat \<Rightarrow> nat" where
  "width n = (if n = 0 then 0 else Suc (width (n div 2)))"

declare width.simps [simp del]

definition to_double :: "int \<Rightarrow> int" where
  "to_double n =
     (let a = nat \<bar>n\<bar>; w = width a
      in if w \<le> 53 then n
         else (let e = w - 53; q = a div 2 ^ e; r = a mod 2 ^ e; half = 2 ^ (e - 1);
                   q' = (if half < r \<or> (r = half \<and> odd q) then q + 1 else q)
               in sgn n * int (q' * 2 ^ e)))"

definition js_plus :: "int \<Rightarrow> int \<Rightarrow> int" where
  "js_plus a b = to_double (a + b)"

section \<open>Scoping\<close>

text \<open>
  The metadata of a scoped export: the metadata of the whole conversation, spread, with
  twelve properties reassigned from the messages in scope.
\<close>

definition scoped_metadata :: "metadata \<Rightarrow> string \<Rightarrow> message list \<Rightarrow> metadata" where
  "scoped_metadata base label scopedMessages =
     (let scopedThinkingBlocks =
            concat (map (\<lambda>message. case m_thinkingBlocks message of None \<Rightarrow> [] | Some bs \<Rightarrow> bs)
                      scopedMessages);
          totalWordCount = foldl (\<lambda>sum message. js_plus sum (num_or (m_wordCount message) 0)) 0 scopedMessages;
          referenceIndex = computeReferenceIndexFromMessages scopedMessages;
          uploadedDocuments = computeUploadedDocumentsFromMessages scopedMessages
      in base \<lparr>
           md_messageCount := Some (int (length scopedMessages)),
           md_thinkingBlockCount := Some (int (length scopedThinkingBlocks)),
           md_totalWordCount := Some totalWordCount,
           md_scope := Str label,
           md_blockTypeBreakdown := Some (blockTypeTally scopedThinkingBlocks),
           md_referenceIndex := Some referenceIndex,
           md_referenceCount := ri_total referenceIndex,
           md_linkCount := Some (int (length (links referenceIndex))),
           md_attachmentCount := Some (int (length (attachments referenceIndex))),
           md_citationCount := Some (int (length (citations referenceIndex))),
           md_uploadedDocuments := Some uploadedDocuments,
           md_uploadedDocumentCount := Some (int (length uploadedDocuments)) \<rparr>)"

text \<open>
  \<open>buildScopedExportData\<close>. Reading \<open>messages.length\<close> of data without a message array
  throws; a missing metadata object spreads as no properties.
\<close>

definition buildScopedExportData :: "export_options \<Rightarrow> export_data \<Rightarrow> error + export_data" where
  "buildScopedExportData options exportData =
     (case ed_messages exportData of
        None \<Rightarrow> Inl (Error ''TypeError'')
      | Some messages \<Rightarrow>
         (let totalMessages = int (length messages);
              range = resolveMessageRange options totalMessages;
              scopedMessages = js_slice messages (range_start range) (range_end range + 1);
              scopedThinkingBlocks =
                concat (map (\<lambda>message. case m_thinkingBlocks message of None \<Rightarrow> [] | Some bs \<Rightarrow> bs)
                          scopedMessages);
              base = (case ed_metadata exportData of None \<Rightarrow> empty_metadata | Some md \<Rightarrow> md);
              scopedMetadata = scoped_metadata base (range_label range) scopedMessages
          in Inr (exportData \<lparr> ed_messages := Some scopedMessages,
                               ed_thinkingBlocks := Some scopedThinkingBlocks,
                               ed_metadata := Some scopedMetadata \<rparr>)))"

section \<open>Normalization and validation\<close>

text \<open>The signature \<open>`${summary}|${content.slice(0, 600)}`\<close> of a block, both parts trimmed.\<close>

definition block_signature :: "block \<Rightarrow> string" where
  "block_signature block =
     trim (or_empty (b_summary block)) @ ''|'' @ take 600 (trim (or_empty (b_content block)))"

text \<open>The object pushed onto the flat list for the block at position \<open>index\<close> of the aggregate.\<close>

definition normalized_block :: "nat \<Rightarrow> block \<Rightarrow> block" where
  "normalized_block index block =
     (let content = trim (or_empty (b_content block));
          summary = trim (or_empty (b_summary block));
          text = (if content \<noteq> [] then content else summary)
      in \<lparr> b_id = Str (or_default (b_id block) (''thinking_'' @ string_of_nat index)),
           b_type = Str (or_default (b_type block) ''thinking''),
           b_summary = Str summary,
           b_content = Str text,
           b_wordCount = Some (num_or (b_wordCount block) (countWords text)),
           b_characterCount = Some (num_or (b_characterCount block) (int (length text))),
           b_html = Str (or_empty (b_html block)),
           b_richHtml = Undefined,
           b_structuredData = b_structuredData block,
           b_references = None,
           b_expanded = None,
           b_other = [] \<rparr>)"

text \<open>The loop over the aggregate, with the signatures seen and the running index.\<close>

fun dedupe_aggregate :: "string set \<Rightarrow> nat \<Rightarrow> block list \<Rightarrow> block list" where
  "dedupe_aggregate seen index [] = []"
| "dedupe_aggregate seen index (block # rest) =
     (let content = trim (or_empty (b_content block));
          summary = trim (or_empty (b_summary block));
          signature = block_signature block
      in if content = [] \<and> summary = [] then dedupe_aggregate seen (Suc index) rest
         else if signature \<in> seen then dedupe_aggregate seen (Suc index) rest
         else normalized_block index block # dedupe_aggregate (insert signature seen) (Suc index) rest)"

text \<open>The loop over the blocks of one message: the block objects themselves are kept.\<close>

fun dedupe_message_blocks :: "string set \<Rightarrow> block list \<Rightarrow> block list" where
  "dedupe_message_blocks seenBlocks [] = []"
| "dedupe_message_blocks seenBlocks (block # rest) =
     (let signature = block_signature block
      in if signature \<in> seenBlocks then dedupe_message_blocks seenBlocks rest
         else block # dedupe_message_blocks (insert signature seenBlocks) rest)"

text \<open>The callback of \<open>.map\<close> over the messages whose content is a string; \<open>None\<close> is \<open>null\<close>.\<close>

definition normalize_message :: "nat \<Rightarrow> message \<Rightarrow> message option" where
  "normalize_message index message =
     (let content = trim (or_empty (m_content message));
          blocks = (case m_thinkingBlocks message of
                      None \<Rightarrow> []
                    | Some bs \<Rightarrow> filter (\<lambda>block. trim (or_empty (b_content block)) \<noteq> []) bs);
          dedupedMessageBlocks = dedupe_message_blocks {} blocks
      in if content = [] \<and> length dedupedMessageBlocks = 0 then None
         else Some (message \<lparr>
                m_id := Str (or_default (m_id message) (''msg_'' @ string_of_nat index)),
                m_content := Str content,
                m_wordCount := Some (num_or (m_wordCount message) (num_or (Some (countWords content)) 0)),
                m_characterCount :=
                  Some (num_or (m_characterCount message) (num_or (Some (int (length content))) 0)),
                m_references := Some (normalizeReferenceSet (m_references message)),
                m_thinkingBlocks := Some dedupedMessageBlocks \<rparr>))"

fun map_index :: "(nat \<Rightarrow> 'a \<Rightarrow> 'b) \<Rightarrow> nat \<Rightarrow> 'a list \<Rightarrow> 'b list" where
  "map_index f index [] = []"
| "map_index f index (x # xs) = f index x # map_index f (Suc index) xs"

fun is_string :: "jstr \<Rightarrow> bool" where
  "is_string (Str s) = True"
| "is_string _ = False"

definition normalize_messages :: "message list \<Rightarrow> message list" where
  "normalize_messages messages =
     List.map_filter id
       (map_index normalize_message 0 (filter (\<lambda>message. is_string (m_content message)) messages))"

text \<open>The flat list rebuilt from the top-level blocks followed by every message's blocks.\<close>

definition aggregate_blocks :: "export_data \<Rightarrow> message list \<Rightarrow> block list" where
  "aggregate_blocks exportData messages =
     (case ed_thinkingBlocks exportData of None \<Rightarrow> [] | Some bs \<Rightarrow> bs)
     @ concat (map (\<lambda>message. case m_thinkingBlocks message of None \<Rightarrow> [] | Some bs \<Rightarrow> bs) messages)"

text \<open>
  The metadata assignments of the pass: the counts, the table of block types (filled in
  only when it is missing or empty), the reference index and the uploaded documents.
\<close>

definition recompute_metadata :: "metadata \<Rightarrow> block list \<Rightarrow> message list \<Rightarrow> metadata" where
  "recompute_metadata metadata dedupedBlocks messages =
     (let breakdown = (case md_blockTypeBreakdown metadata of
                         None \<Rightarrow> blockTypeTally dedupedBlocks
                       | Some table \<Rightarrow> if length table = 0 then blockTypeTally dedupedBlocks
                                       else table);
          referenceIndex = computeReferenceIndexFromMessages messages;
          uploadedDocuments = computeUploadedDocumentsFromMessages messages
      in metadata \<lparr>
           md_messageCount := Some (int (length messages)),
           md_thinkingBlockCount := Some (int (length dedupedBlocks)),
           md_hasThinkingBlocks := Some (length dedupedBlocks > 0),
           md_blockTypeBreakdown := Some breakdown,
           md_referenceIndex := Some referenceIndex,
           md_referenceCount := ri_total referenceIndex,
           md_linkCount := Some (int (length (links referenceIndex))),
           md_attachmentCount := Some (int (length (attachments referenceIndex))),
           md_citationCount := Some (int (length (citations referenceIndex))),
           md_uploadedDocuments := Some uploadedDocuments,
           md_uploadedDocumentCount := Some (int (length uploadedDocuments)) \<rparr>)"

text \<open>
  \<open>normalizeAndValidateExportData\<close> works on \<open>this.exportData\<close> in place. The model
  returns the error thrown, if any, together with the export data the call leaves behind.
\<close>

definition normalizeAndValidateExportData :: "export_data option \<Rightarrow> error option \<times> export_data option" where
  "normalizeAndValidateExportData this_exportData =
     (case this_exportData of
        None \<Rightarrow> (Some (Error ''No export data available''), this_exportData)
      | Some exportData \<Rightarrow>
         (case ed_messages exportData of
            None \<Rightarrow> (Some (Error ''No export data available''), this_exportData)
          | Some messages \<Rightarrow>
             (let dedupedBlocks = dedupe_aggregate {} 0 (aggregate_blocks exportData messages);
                  messages' = normalize_messages messages;
                  metadata = (case ed_metadata exportData of None \<Rightarrow> empty_metadata | Some md \<Rightarrow> md);
                  metadata' = recompute_metadata metadata dedupedBlocks messages';
                  exportData' = exportData \<lparr> ed_thinkingBlocks := Some dedupedBlocks,
                                             ed_messages := Some messages',
                                             ed_metadata := Some metadata' \<rparr>
              in if length messages' = 0
                 then (Some (Error ''No messages found to export''), Some exportData')
                 else (None, Some exportData'))))"

text \<open>
  A message survives the filtering step when its content is a string and either the
  trimmed content is not empty or one of its blocks has content that is not blank.
\<close>

definition blank :: "jstr \<Rightarrow> bool" where
  "blank v \<longleftrightarrow> trim (or_empty v) = []"

definition survives :: "message \<Rightarrow> bool" where
  "survives message \<longleftrightarrow>
     is_string (m_content message) \<and>
     (\<not> blank (m_content message) \<or>
      (case m_thinkingBlocks message of
         None \<Rightarrow> False
       | Some bs \<Rightarrow> list_ex (\<lambda>block. \<not> blank (b_content block)) bs))"

text \<open>A block is blank when both its trimmed content and its trimmed summary are empty.\<close>

definition blank_block :: "block \<Rightarrow> bool" where
  "blank_block block \<longleftrightarrow> blank (b_content block) \<and> blank (b_summary block)"

text \<open>
  Position \<open>k\<close> of an aggregate holds the first block with its signature, and that block
  is not blank.
\<close>

definition first_with_signature :: "block list \<Rightarrow> nat \<Rightarrow> bool" where
  "first_with_signature blocks k \<longleftrightarrow>
     \<not> blank_block (blocks ! k) \<and>
     block_signature (blocks ! k) \<notin> set (map block_signature (take k blocks))"

text \<open>The signatures that the loop has recorded after a run over the given blocks.\<close>

definition sigs_seen :: "block list \<Rightarrow> string set" where
  "sigs_seen blocks = block_signature ` {b \<in> set blocks. \<not> blank_block b}"

text \<open>The text a block ends up with: its trimmed content, or its trimmed summary when that is empty.\<close>

definition block_text :: "block \<Rightarrow> string" where
  "block_text b = (if blank (b_content b) then trim (or_empty (b_summary b)) else trim (or_empty (b_content b)))"

text \<open>
  \<open>kept\<close> is a deduplication of \<open>items\<close> by signature: it holds items of \<open>items\<close> only,
  no signature twice, and every signature of \<open>items\<close>.
\<close>

definition deduplication_of :: "('a \<Rightarrow> string) \<Rightarrow> 'a list \<Rightarrow> 'a list \<Rightarrow> bool" where
  "deduplication_of signatureFn items kept \<longleftrightarrow>
     distinct (map signatureFn kept) \<and> set kept \<subseteq> set items \<and>
     signatureFn ` set kept = signatureFn ` set items"

text \<open>The blocks of a given type, \<open>thinking\<close> being the type of a block that names none.\<close>

definition blocks_of_type :: "string \<Rightarrow> block list \<Rightarrow> block list" where
  "blocks_of_type t blocks = filter (\<lambda>block. or_default (b_type block) ''thinking'' = t) blocks"

text \<open>The blocks of a list of messages, message by message.\<close>

definition message_blocks :: "message list \<Rightarrow> block list" where
  "message_blocks messages =
     concat (map (\<lambda>message. case m_thinkingBlocks message of None \<Rightarrow> [] | Some bs \<Rightarrow> bs) messages)"

text \<open>The references of a list of messages, list by list.\<close>

definition all_links :: "message list \<Rightarrow> link_ref list" where
  "all_links messages = concat (map (\<lambda>message. links (normalizeReferenceSet (m_references message))) messages)"

definition all_attachments :: "message list \<Rightarrow> file_ref list" where
  "all_attachments messages =
     concat (map (\<lambda>message. attachments (normalizeReferenceSet (m_references message))) messages)"

definition all_documents :: "message list \<Rightarrow> file_ref list" where
  "all_documents messages =
     concat (map (\<lambda>message. documents (normalizeReferenceSet (m_references message))) messages)"

definition all_citations :: "message list \<Rightarrow> citation_ref list" where
  "all_citations messages =
     concat (map (\<lambda>message. citations (normalizeReferenceSet (m_references message))) messages)"

text \<open>
  The shape in which the extractors hand over a block: a block whose text is empty gets
  its summary as content (\<open>content.trim() || summary\<close>), and a block without any text is
  dropped, so a block never has a summary and blank content. An extracted document is
  one whose blocks, top-level and inside messages, all have this shape.
\<close>

definition extracted_block :: "block \<Rightarrow> bool" where
  "extracted_block block \<longleftrightarrow> \<not> blank (b_content block) \<or> blank (b_summary block)"

definition extracted :: "export_data \<Rightarrow> bool" where
  "extracted exportData \<longleftrightarrow>
     list_all extracted_block
       (aggregate_blocks exportData (case ed_messages exportData of None \<Rightarrow> [] | Some ms \<Rightarrow> ms))"

section \<open>The document of the universal extractor\<close>

text \<open>
  \<open>extractMessage\<close>. What is read from the element of the page is a parameter: the author,
  the text, the markup, the time stamp, the embedded blocks and the references (\<open>None\<close>
  when \<open>hasReferences\<close> finds none). An element without text gives no message.
\<close>

definition extractMessage ::
    "nat \<Rightarrow> string \<Rightarrow> string \<Rightarrow> string \<Rightarrow> string \<Rightarrow> block list \<Rightarrow> reference_set option
       \<Rightarrow> message option" where
  "extractMessage index author content html timestamp embeddedThinking references =
     (if trim content = [] then None
      else Some \<lparr> m_id = Str (''msg_'' @ string_of_nat index),
                  m_author = Str author,
                  m_content = Str content,
                  m_html = Str html,
                  m_timestamp = Str timestamp,
                  m_wordCount = Some (int (length (split_ws content))),
                  m_characterCount = Some (int (length content)),
                  m_thinkingBlocks = (if length embeddedThinking > 0 then Some embeddedThinking else None),
                  m_references = references,
                  m_other = [] \<rparr>)"

text \<open>\<open>truncate(text, length = 100)\<close>.\<close>

definition truncate :: "jstr \<Rightarrow> jstr" where
  "truncate text =
     (case text of
        Str s \<Rightarrow> if length s \<le> 100 then Str s else Str (take 100 s @ ''...'')
      | _ \<Rightarrow> Null)"

text \<open>\<open>buildReferenceIndex\<close>: the reference sets of the messages that have one, merged.\<close>

definition buildReferenceIndex :: "message list \<Rightarrow> reference_index" where
  "buildReferenceIndex messages =
     (let fromMessages = filter (\<lambda>refs. refs \<noteq> None) (map m_references messages);
          referenceIndex = mergeReferences fromMessages
      in \<lparr> links = links referenceIndex, attachments = attachments referenceIndex,
           documents = documents referenceIndex, citations = citations referenceIndex,
           ri_total = Some (int (length (links referenceIndex)) + int (length (attachments referenceIndex))
                          + int (length (documents referenceIndex)) + int (length (citations referenceIndex))) \<rparr>)"

text \<open>The content of the first and of the last message: \<open>messages[i]?.content\<close>.\<close>

definition first_content :: "message list \<Rightarrow> jstr" where
  "first_content messages = (case messages of [] \<Rightarrow> Undefined | m # _ \<Rightarrow> m_content m)"

definition last_content :: "message list \<Rightarrow> jstr" where
  "last_content messages = (if messages = [] then Undefined else m_content (last messages))"

text \<open>
  \<open>postProcess\<close>, on the metadata, messages and blocks of the extractor.
  \<open>calculateConversationDuration\<close> reads the time stamps as dates; it is a parameter.
\<close>

definition postProcess ::
    "(message list \<Rightarrow> json) \<Rightarrow> metadata \<Rightarrow> message list \<Rightarrow> block list \<Rightarrow> metadata" where
  "postProcess calculateConversationDuration md messages thinkingBlocks =
     (let referenceIndex = buildReferenceIndex messages
      in md \<lparr>
           md_messageCount := Some (int (length messages)),
           md_thinkingBlockCount := Some (int (length thinkingBlocks)),
           md_hasThinkingBlocks := Some (length thinkingBlocks > 0),
           md_totalWordCount :=
             Some (foldl (\<lambda>sum msg. js_plus sum (num_or (m_wordCount msg) 0)) 0 messages),
           md_totalCharacterCount :=
             Some (foldl (\<lambda>sum msg. js_plus sum (num_or (m_characterCount msg) 0)) 0 messages),
           md_userMessageCount :=
             Some (int (length (filter (\<lambda>msg. m_author msg = Str ''user'') messages))),
           md_assistantMessageCount :=
             Some (int (length (filter (\<lambda>msg. m_author msg = Str ''assistant'') messages))),
           md_referenceIndex := Some referenceIndex,
           md_referenceCount := ri_total referenceIndex,
           md_linkCount := Some (int (length (links referenceIndex))),
           md_attachmentCount := Some (int (length (attachments referenceIndex))),
           md_citationCount := Some (int (length (citations referenceIndex))),
           md_conversationSummary :=
             Some \<lparr> cs_firstMessage = truncate (first_content messages),
                    cs_lastMessage = truncate (last_content messages),
                    cs_duration = calculateConversationDuration messages \<rparr> \<rparr>)"

text \<open>
  The metadata that the constructor of the extractor sets up, and the document that
  \<open>extractConversation\<close> returns for the messages and blocks taken from the page.
\<close>

definition initial_metadata ::
    "string \<Rightarrow> string \<Rightarrow> string \<Rightarrow> string \<Rightarrow> string \<Rightarrow> string \<Rightarrow> metadata" where
  "initial_metadata platform url title rawDocumentTitle timestamp userAgent =
     empty_metadata \<lparr>
       md_platform := Str platform, md_url := Str url, md_title := Str title,
       md_rawDocumentTitle := Str rawDocumentTitle, md_exportDate := Str timestamp,
       md_messageCount := Some 0, md_thinkingBlockCount := Some 0,
       md_hasThinkingBlocks := Some False, md_referenceCount := Some 0, md_linkCount := Some 0,
       md_attachmentCount := Some 0, md_citationCount := Some 0,
       md_other := [(''exporterVersion'', JStr ''1.0.0''), (''userAgent'', JStr userAgent)] \<rparr>"

definition extractConversation ::
    "(message list \<Rightarrow> json) \<Rightarrow> metadata \<Rightarrow> raw_html \<Rightarrow> message list \<Rightarrow> block list \<Rightarrow> export_data" where
  "extractConversation calculateConversationDuration md raw messages thinkingBlocks =
     \<lparr> ed_messages = Some messages, ed_thinkingBlocks = Some thinkingBlocks,
       ed_metadata = Some (postProcess calculateConversationDuration md messages thinkingBlocks),
       ed_rawHtml = RawHtml raw \<rparr>"


section \<open>Regular expressions\<close>

text \<open>
  The extractor and the redaction are written with JavaScript regular expressions. They
  are modelled by a backtracking matcher that returns the ways a pattern matches at a
  position in the order in which the JavaScript engine tries them: the first result is
  the match the engine reports. A position is the code unit before it (if any), the rest
  of the input, and the captures made so far.
\<close>

datatype regex =
    Eps
  | Chr "char \<Rightarrow> bool"
  | Seq regex regex
  | Alt regex regex
  | Star regex
  | Lazy regex
  | Assert "char option \<Rightarrow> char option \<Rightarrow> bool"
  | Group nat regex

type_synonym position = "char option \<times> string \<times> (nat \<times> string) list"

fun rest_of :: "position \<Rightarrow> string" where
  "rest_of (p, rest, caps) = rest"

text \<open>
  A quantifier gives up an iteration that consumes nothing, as the language standard
  prescribes. \<open>Star\<close> is the greedy \<open>r*\<close>, \<open>Lazy\<close> is \<open>r*?\<close>; an assertion looks at the code
  units before and after the position; a group records the text it has matched.
\<close>

function matches :: "regex \<Rightarrow> position \<Rightarrow> position list" where
  "matches Eps pos = [pos]"
| "matches (Chr P) (p, [], caps) = []"
| "matches (Chr P) (p, c # rest, caps) = (if P c then [(Some c, rest, caps)] else [])"
| "matches (Seq r1 r2) pos = concat (map (matches r2) (matches r1 pos))"
| "matches (Alt r1 r2) pos = matches r1 pos @ matches r2 pos"
| "matches (Star r) pos =
     concat (map (\<lambda>pos'. if length (rest_of pos') < length (rest_of pos)
                           then matches (Star r) pos' else [])
               (matches r pos)) @ [pos]"
| "matches (Lazy r) pos =
     pos # concat (map (\<lambda>pos'. if length (rest_of pos') < length (rest_of pos)
                                 then matches (Lazy r) pos' else [])
                     (matches r pos))"
| "matches (Assert A) (p, rest, caps) =
     (if A p (case rest of [] \<Rightarrow> None | c # _ \<Rightarrow> Some c) then [(p, rest, caps)] else [])"
| "matches (Group n r) (p, rest, caps) =
     map (\<lambda>(p', rest', caps'). (p', rest', (n, take (length rest - length rest') rest) # caps'))
       (matches r (p, rest, caps))"
  by pat_completeness auto
termination
  by (relation "measure size <*lex*> measure (\<lambda>pos. length (rest_of pos))") auto

text \<open>Derived forms: \<open>r?\<close>, \<open>r+\<close>, \<open>r+?\<close>, \<open>r{n}\<close>, \<open>r{n,}\<close>, \<open>r{n,n+k}\<close>, a literal and a literal under the flag \<open>i\<close>.\<close>

definition Opt :: "regex \<Rightarrow> regex" where
  "Opt r = Alt r Eps"

definition Plus :: "regex \<Rightarrow> regex" where
  "Plus r = Seq r (Star r)"

definition LazyPlus :: "regex \<Rightarrow> regex" where
  "LazyPlus r = Seq r (Lazy r)"

fun Rep :: "nat \<Rightarrow> regex \<Rightarrow> regex" where
  "Rep 0 r = Eps"
| "Rep (Suc n) r = Seq r (Rep n r)"


fun UpTo :: "nat \<Rightarrow> regex \<Rightarrow> regex" where
  "UpTo 0 r = Eps"
| "UpTo (Suc k) r = Opt (Seq r (UpTo k r))"

definition Between :: "nat \<Rightarrow> nat \<Rightarrow> regex \<Rightarrow> regex" where
  "Between n k r = Seq (Rep n r) (UpTo k r)"

fun Lit :: "string \<Rightarrow> regex" where
  "Lit [] = Eps"
| "Lit (c # cs) = Seq (Chr (\<lambda>x. x = c)) (Lit cs)"

fun LitI :: "string \<Rightarrow> regex" where
  "LitI [] = Eps"
| "LitI (c # cs) = Seq (Chr (\<lambda>x. lower_char x = lower_char c)) (LitI cs)"

fun Alts :: "regex list \<Rightarrow> regex" where
  "Alts [] = Chr (\<lambda>x. False)"
| "Alts [r] = r"
| "Alts (r # rs) = Alt r (Alts rs)"

text \<open>Character classes.\<close>

definition is_digit :: "char \<Rightarrow> bool" where
  "is_digit c \<longleftrightarrow> c \<in> set ''0123456789''"

definition is_upper :: "char \<Rightarrow> bool" where
  "is_upper c \<longleftrightarrow> c \<in> set ''ABCDEFGHIJKLMNOPQRSTUVWXYZ''"

definition is_lower :: "char \<Rightarrow> bool" where
  "is_lower c \<longleftrightarrow> c \<in> set ''abcdefghijklmnopqrstuvwxyz''"

definition is_alnum :: "char \<Rightarrow> bool" where
  "is_alnum c \<longleftrightarrow> is_upper c \<or> is_lower c \<or> is_digit c"

text \<open>The class \<open>\w\<close>.\<close>

definition is_word :: "char \<Rightarrow> bool" where
  "is_word c \<longleftrightarrow> is_alnum c \<or> c = CHR ''_''"

text \<open>The class matched by a dot: anything but a line terminator.\<close>

definition is_dot :: "char \<Rightarrow> bool" where
  "is_dot c \<longleftrightarrow> c \<noteq> CHR 0x0A \<and> c \<noteq> CHR 0x0D"

text \<open>The assertions \<open>\b\<close>, \<open>^\<close> and \<open>$\<close>, the last two also under the flag \<open>m\<close>.\<close>

definition word_boundary :: "char option \<Rightarrow> char option \<Rightarrow> bool" where
  "word_boundary p n \<longleftrightarrow>
     (case p of None \<Rightarrow> False | Some c \<Rightarrow> is_word c) \<noteq> (case n of None \<Rightarrow> False | Some c \<Rightarrow> is_word c)"

definition at_start :: "char option \<Rightarrow> char option \<Rightarrow> bool" where
  "at_start p n \<longleftrightarrow> p = None"

definition at_end :: "char option \<Rightarrow> char option \<Rightarrow> bool" where
  "at_end p n \<longleftrightarrow> n = None"

definition at_line_start :: "char option \<Rightarrow> char option \<Rightarrow> bool" where
  "at_line_start p n \<longleftrightarrow> (case p of None \<Rightarrow> True | Some c \<Rightarrow> \<not> is_dot c)"

definition at_line_end :: "char option \<Rightarrow> char option \<Rightarrow> bool" where
  "at_line_end p n \<longleftrightarrow> (case n of None \<Rightarrow> True | Some c \<Rightarrow> \<not> is_dot c)"

text \<open>
  The first match at or after a position, as \<open>exec\<close> finds it: the text skipped, the text
  matched, the captures, and the position after the match.
\<close>

record found =
  skipped :: string
  matched :: string
  captures :: "(nat \<times> string) list"
  after :: "char option \<times> string"

fun search :: "regex \<Rightarrow> char option \<Rightarrow> string \<Rightarrow> found option" where
  "search r p s =
     (case matches r (p, s, []) of
        (p', rest', caps) # _ \<Rightarrow>
          Some \<lparr> skipped = [], matched = take (length s - length rest') s, captures = caps,
                 after = (p', rest') \<rparr>
      | [] \<Rightarrow>
          (case s of
             [] \<Rightarrow> None
           | c # s' \<Rightarrow> map_option (\<lambda>f. f \<lparr> skipped := c # skipped f \<rparr>) (search r (Some c) s')))"

text \<open>\<open>regex.test(s)\<close> and \<open>s.match(regex)\<close> used as a condition.\<close>

definition test :: "regex \<Rightarrow> string \<Rightarrow> bool" where
  "test r s \<longleftrightarrow> search r None s \<noteq> None"

text \<open>The text of capture \<open>n\<close>, empty when the group took no part in the match.\<close>

fun capture :: "(nat \<times> string) list \<Rightarrow> nat \<Rightarrow> string" where
  "capture [] n = []"
| "capture ((k, v) # caps) n = (if k = n then v else capture caps n)"

text \<open>
  All matches under the flag \<open>g\<close>, from left to right, without overlap; after an empty
  match the scan moves on by one code unit.
\<close>

function match_all_from :: "regex \<Rightarrow> char option \<Rightarrow> string \<Rightarrow> (string \<times> (nat \<times> string) list) list" where
  "match_all_from r p s =
     (case matches r (p, s, []) of
        (p', rest', caps) # _ \<Rightarrow>
          (take (length s - length rest') s, caps) #
            (if length rest' < length s then match_all_from r p' rest'
             else (case s of [] \<Rightarrow> [] | c # s' \<Rightarrow> match_all_from r (Some c) s'))
      | [] \<Rightarrow> (case s of [] \<Rightarrow> [] | c # s' \<Rightarrow> match_all_from r (Some c) s'))"
  by pat_completeness auto
termination
  by (relation "measure (\<lambda>(r, p, s). length s)") auto

definition match_all :: "regex \<Rightarrow> string \<Rightarrow> (string \<times> (nat \<times> string) list) list" where
  "match_all r s = match_all_from r None s"



text \<open>\<open>s.replace(regex, f)\<close> without the flag \<open>g\<close>: the first match only.\<close>

definition replace_first :: "regex \<Rightarrow> ((nat \<times> string) list \<Rightarrow> string) \<Rightarrow> string \<Rightarrow> string" where
  "replace_first r f s =
     (case search r None s of
        None \<Rightarrow> s
      | Some m \<Rightarrow> skipped m @ f (captures m) @ snd (after m))"

text \<open>\<open>s.includes(t)\<close>, \<open>s.startsWith(t)\<close>, \<open>s.endsWith(t)\<close>.\<close>

fun startsWith :: "string \<Rightarrow> string \<Rightarrow> bool" where
  "startsWith s [] = True"
| "startsWith [] (a # t) = False"
| "startsWith (c # s) (a # t) = (if c = a then startsWith s t else False)"

fun includes_str :: "string \<Rightarrow> string \<Rightarrow> bool" where
  "includes_str [] t = (t = [])"
| "includes_str (c # s) t = (if startsWith (c # s) t then True else includes_str s t)"

definition endsWith :: "string \<Rightarrow> string \<Rightarrow> bool" where
  "endsWith s t \<longleftrightarrow> startsWith (rev s) (rev t)"

declare matches.simps [simp del]
declare search.simps [simp del]
declare match_all_from.simps [simp del]

section \<open>Block classification and the web-search parser\<close>

text \<open>\<open>countDomains\<close>: the matches of \<open>/[\w-]+\.(com|org|net|io|ai|edu|gov|dev|app|co)\b/gi\<close>.\<close>

definition domain_regex :: regex where
  "domain_regex =
     Seq (Plus (Chr (\<lambda>c. is_word c \<or> c = CHR ''-'')))
       (Seq (Lit ''.'')
         (Seq (Group 1 (Alts (map LitI [''com'', ''org'', ''net'', ''io'', ''ai'', ''edu'', ''gov'',
                                         ''dev'', ''app'', ''co''])))
           (Assert word_boundary)))"

definition countDomains :: "string \<Rightarrow> nat" where
  "countDomains text = length (match_all domain_regex text)"

text \<open>\<open>looksLikeSearchResults\<close>; the ratio test \<open>capitals / max(words, 1) > 0.5\<close> is taken times two.\<close>

definition looksLikeSearchResults :: "string \<Rightarrow> string \<Rightarrow> bool" where
  "looksLikeSearchResults content summary =
     (if summary = [] \<or> length summary < 80 then False
      else
        (let capitals = length (match_all (Seq (Chr is_upper) (Plus (Chr is_lower))) summary);
             words = length (split_ws summary)
         in if 2 * capitals > max words 1 \<and> words > 10 then True
            else if countDomains summary \<ge> 2 then True
            else if endsWith summary ''Done'' \<and> length summary > 100 then True
            else False))"

text \<open>The number of pieces of \<open>s.split(sep)\<close> for a separator that is not empty.\<close>

function count_pieces :: "string \<Rightarrow> string \<Rightarrow> nat" where
  "count_pieces sep s =
     (if s = [] \<or> sep = [] then 1
      else if startsWith s sep then Suc (count_pieces sep (drop (length sep) s))
      else count_pieces sep (tl s))"
  by pat_completeness auto
termination
  by (relation "measure (\<lambda>(sep, s). length s)") auto

definition starts_with_any :: "string list \<Rightarrow> regex" where
  "starts_with_any words = Seq (Assert at_start) (Group 1 (Alts (map LitI words)))"

definition fence :: string where
  "fence = [CHR 0x60, CHR 0x60, CHR 0x60]"

text \<open>\<open>detectBlockType\<close>: the first heuristic that applies decides.\<close>

definition detectBlockType :: "string \<Rightarrow> string \<Rightarrow> string \<Rightarrow> string" where
  "detectBlockType content summary richHtml =
     (let lower = toLowerCase content;
          sumLower = toLowerCase summary;
          html = toLowerCase richHtml
      in if includes_str lower ''searched the web'' \<or>
            includes_str lower ''search results'' \<or>
            includes_str sumLower ''searched'' \<or>
            looksLikeSearchResults content summary \<or>
            (includes_str html ''href='' \<and> countDomains lower \<ge> 3)
         then ''web_search''
         else if test (starts_with_any [''ran '', ''created '', ''viewed '', ''read '', ''edited '',
                         ''wrote '', ''deleted '', ''executed '', ''installed '', ''checked '']) sumLower \<or>
                 test (starts_with_any [''find '', ''check '', ''test '', ''run '', ''get '',
                         ''install '', ''search '']) sumLower \<or>
                 test (LitI ([CHR 0x0A] @ ''output'' @ [CHR 0x0A])) lower \<or>
                 includes_str lower (fence @ ''bash'') \<or>
                 includes_str lower (fence @ ''shell'') \<or>
                 (includes_str lower ''$ '' \<and> includes_str lower [CHR 0x0A])
         then ''tool_call''
         else if includes_str sumLower ''prompt chain'' \<or>
                 includes_str sumLower ''prompt'' \<or>
                 includes_str sumLower ''system prompt'' \<or>
                 includes_str lower ''system prompt'' \<or>
                 includes_str lower ''instruction chain'' \<or>
                 includes_str lower ''prompt chain''
         then ''prompt_chain''
         else if test (Seq (Assert at_start) (Seq (Lit ''+'') (Seq (Plus (Chr is_digit))
                         (Seq (Star (Chr is_dot)) (Seq (Lit ''-'') (Plus (Chr is_digit))))))) sumLower \<or>
                 test (Seq (Assert at_start) (Seq (Lit ''+'') (Seq (Plus (Chr is_digit))
                         (Seq (Lit ''-'') (Plus (Chr is_digit)))))) lower
         then ''file_edit''
         else if test (Seq (Lit ''.'')
                         (Seq (Group 1 (Alts (map Lit [''js'', ''ts'', ''py'', ''rs'', ''go'', ''java'', ''css'',
                                  ''html'', ''json'', ''yaml'', ''toml'', ''md'', ''jsx'', ''tsx'', ''vue'',
                                  ''svelte''])))
                            (Assert word_boundary))) sumLower \<or>
                 (includes_str lower fence \<and> count_pieces fence lower > 2)
         then ''code''
         else ''thinking'')"

text \<open>The query pattern \<open>/(?:^|\n)(.+?)\n\s*\d+\s+results?\b/gmi\<close>.\<close>

definition query_regex :: regex where
  "query_regex =
     Seq (Alt (Assert at_line_start) (Lit [CHR 0x0A]))
       (Seq (Group 1 (LazyPlus (Chr is_dot)))
         (Seq (Lit [CHR 0x0A])
           (Seq (Star (Chr is_space))
             (Seq (Plus (Chr is_digit))
               (Seq (Plus (Chr is_space))
                 (Seq (LitI ''result'') (Seq (Opt (LitI ''s'')) (Assert word_boundary))))))))"

text \<open>The prefix pattern \<open>/^searched\s+(the\s+web\s+)?/i\<close>.\<close>

definition searched_regex :: regex where
  "searched_regex =
     Seq (Assert at_start)
       (Seq (LitI ''searched'')
         (Seq (Plus (Chr is_space))
           (Opt (Group 1 (Seq (LitI ''the'') (Seq (Plus (Chr is_space))
                            (Seq (LitI ''web'') (Plus (Chr is_space)))))))))"

text \<open>The link pattern \<open>/href="(https?:\/\/[^"]+)"[^>]*>([^<]*)</gi\<close>.\<close>

definition link_regex :: regex where
  "link_regex =
     Seq (LitI (''href='' @ [CHR 0x22]))
       (Seq (Group 1 (Seq (LitI ''http'') (Seq (Opt (LitI ''s'')) (Seq (Lit ''://'')
                        (Plus (Chr (\<lambda>c. c \<noteq> CHR 0x22)))))))
         (Seq (Lit [CHR 0x22])
           (Seq (Star (Chr (\<lambda>c. c \<noteq> CHR ''>'')))
             (Seq (Lit ''>'')
               (Seq (Group 2 (Star (Chr (\<lambda>c. c \<noteq> CHR ''<'')))) (Lit ''<''))))))"

text \<open>The domain-line pattern \<open>/^[\w.-]+\.\w{2,4}$/\<close>.\<close>

definition domain_line_regex :: regex where
  "domain_line_regex =
     Seq (Assert at_start)
       (Seq (Plus (Chr (\<lambda>c. is_word c \<or> c = CHR ''.'' \<or> c = CHR ''-'')))
         (Seq (Lit ''.'') (Seq (Between 2 2 (Chr is_word)) (Assert at_end))))"

text \<open>The fallback loop over the lines: a line followed by a domain line is a result, and both are consumed.\<close>

fun pair_lines :: "string list \<Rightarrow> search_result list" where
  "pair_lines (line # nextLine # lines) =
     (if test domain_line_regex nextLine
      then \<lparr> sr_title = line, sr_url = Undefined, sr_domain = Str nextLine \<rparr> # pair_lines lines
      else pair_lines (nextLine # lines))"
| "pair_lines lines = []"

definition parseWebSearchContent :: "string \<Rightarrow> string \<Rightarrow> web_search_data" where
  "parseWebSearchContent content richHtml =
     (if content = [] then \<lparr> queries = [], results = [] \<rparr>
      else
        (let queryMatches = map fst (match_all query_regex content);
             found_queries =
               List.map_filter
                 (\<lambda>m. case split_on (CHR 0x0A) (trim m) of
                        [] \<Rightarrow> None
                      | part # _ \<Rightarrow>
                          (let q = trim (replace_first searched_regex (\<lambda>caps. []) part)
                           in if q \<noteq> [] then Some q else None))
                 queryMatches;
             linked =
               (if richHtml = [] then []
                else List.map_filter
                       (\<lambda>(m, caps).
                          (let url = capture caps 1; title = trim (capture caps 2)
                           in if title \<noteq> [] \<and> url \<noteq> []
                              then Some \<lparr> sr_title = title, sr_url = Str url, sr_domain = Undefined \<rparr>
                              else None))
                       (match_all link_regex richHtml));
             found_results =
               (if length linked = 0
                then pair_lines (filter (\<lambda>l. l \<noteq> []) (map trim (split_on (CHR 0x0A) content)))
                else linked)
         in \<lparr> queries = found_queries, results = found_results \<rparr>))"

text \<open>The content of the scenario: four lines separated by line feeds.\<close>

definition searched_content :: string where
  "searched_content =
     ''Searched the web'' @ [CHR 0x0A] @ ''3 results'' @ [CHR 0x0A] @ ''github.com'' @ [CHR 0x0A] @
     ''stackoverflow.com''"

section \<open>Redaction\<close>


definition is_separator :: "char \<Rightarrow> bool" where
  "is_separator c \<longleftrightarrow> c = CHR ''-'' \<or> c = CHR ''.'' \<or> is_space c"

definition phone_regex :: regex where
  "phone_regex =
     Seq (Assert word_boundary)
       (Seq (Opt (Seq (Opt (Lit ''+'')) (Seq (Lit ''1'') (Opt (Chr is_separator)))))
         (Seq (Rep 2 (Seq (Opt (Lit ''(''))
                       (Seq (Rep 3 (Chr is_digit))
                         (Seq (Opt (Lit '')'')) (Opt (Chr is_separator))))))
           (Seq (Rep 4 (Chr is_digit)) (Assert word_boundary))))"















section \<open>The JSON export\<close>




































section \<open>Texts of separate words\<close>









section \<open>What a match consumes\<close>

text \<open>
  Notions for reasoning about the matcher. \<open>within A r\<close>: every code unit that \<open>r\<close> can
  consume is in the class \<open>A\<close>. \<open>requires P r\<close>: every match of \<open>r\<close> consumes a code unit of
  the class \<open>P\<close>.
\<close>

fun within :: "(char \<Rightarrow> bool) \<Rightarrow> regex \<Rightarrow> bool" where
  "within A Eps = True"
| "within A (Chr Q) = (\<forall>c. Q c \<longrightarrow> A c)"
| "within A (Seq r1 r2) = (within A r1 \<and> within A r2)"
| "within A (Alt r1 r2) = (within A r1 \<and> within A r2)"
| "within A (Star r) = within A r"
| "within A (Lazy r) = within A r"
| "within A (Assert B) = True"
| "within A (Group n r) = within A r"



text \<open>The first way in which \<open>r\<close> matches at \<open>pos\<close> ends at \<open>y\<close>.\<close>

definition leads :: "regex \<Rightarrow> position \<Rightarrow> position \<Rightarrow> bool" where
  "leads r pos y \<longleftrightarrow> (\<exists>ys. matches r pos = y # ys)"


text \<open>The code unit before the position reached by consuming \<open>u\<close>.\<close>

definition before :: "char option \<Rightarrow> string \<Rightarrow> char option" where
  "before p u = (if u = [] then p else Some (last u))"


section \<open>Sample data\<close>

definition ref_a :: reference_set where
  "ref_a = \<lparr> links = [\<lparr> link_url = Str ''https://a.org/'', link_title = Str ''A'', link_domain = Str ''a.org'' \<rparr>],
             attachments = [], documents = [], citations = [] \<rparr>"

definition ref_b :: reference_set where
  "ref_b = \<lparr> links = [\<lparr> link_url = Str ''https://a.org/'', link_title = Str ''A'', link_domain = Str ''a.org'' \<rparr>,
                      \<lparr> link_url = Str ''https://b.org/'', link_title = Null, link_domain = Str ''b.org'' \<rparr>],
             attachments = [], documents = [],
             citations = [\<lparr> cit_text = Str ''[1]'', cit_url = Null \<rparr>] \<rparr>"

text \<open>A block, a message and a document with the given parts and nothing else.\<close>

definition mk_block :: "string \<Rightarrow> string \<Rightarrow> string \<Rightarrow> block" where
  "mk_block type summary content =
     \<lparr> b_id = Undefined, b_type = Str type, b_summary = Str summary, b_content = Str content,
       b_wordCount = None, b_characterCount = None, b_html = Undefined, b_richHtml = Undefined,
       b_structuredData = None, b_references = None, b_expanded = None, b_other = [] \<rparr>"

definition mk_message :: "string \<Rightarrow> string \<Rightarrow> block list option \<Rightarrow> message" where
  "mk_message author content blocks =
     \<lparr> m_id = Undefined, m_author = Str author, m_content = Str content, m_html = Undefined,
       m_timestamp = Undefined, m_wordCount = None, m_characterCount = None,
       m_thinkingBlocks = blocks, m_references = None, m_other = [] \<rparr>"

definition mk_data :: "block list \<Rightarrow> message list \<Rightarrow> export_data" where
  "mk_data blocks messages =
     \<lparr> ed_messages = Some messages, ed_thinkingBlocks = Some blocks, ed_metadata = None,
       ed_rawHtml = NoRawHtml \<rparr>"

text \<open>
  An assistant turn whose trace was captured twice, first classified \<open>thinking\<close>, then
  \<open>tool_call\<close>, with the same summary and content.
\<close>

definition collide_data :: export_data where
  "collide_data =
     mk_data []
       [mk_message ''assistant'' ''Here are the files.''
          (Some [mk_block ''thinking'' ''Plan'' ''list the files'',
                 mk_block ''tool_call'' ''Plan'' ''list the files''])]"

text \<open>
  A message as the universal extractor builds it from the text \<open>hello world\<close> followed by
  a space: \<open>content.split(/\s+/).length\<close> is 3 and \<open>content.length\<close> is 12.
\<close>

definition counted_message :: message where
  "counted_message =
     (mk_message ''user'' ''hello world '' None) \<lparr> m_wordCount := Some 3, m_characterCount := Some 12 \<rparr>"

definition counted_data :: export_data where
  "counted_data = mk_data [] [counted_message]"

text \<open>A document whose only message is blank, with a block captured twice at top level.\<close>

definition blank_data :: export_data where
  "blank_data =
     mk_data [mk_block ''thinking'' '''' ''step one'', mk_block ''thinking'' '''' ''step one'']
       [mk_message ''assistant'' ''  '' None]"

text \<open>Six messages; the first, the third and the sixth carry links.\<close>

definition link_to :: "string \<Rightarrow> link_ref" where
  "link_to url = \<lparr> link_url = Str url, link_title = Str '''', link_domain = Undefined \<rparr>"

definition with_links :: "message \<Rightarrow> link_ref list \<Rightarrow> message" where
  "with_links message ls =
     message \<lparr> m_references := Some \<lparr> links = ls, attachments = [], documents = [], citations = [] \<rparr> \<rparr>"

definition six_messages :: "message list" where
  "six_messages =
     [with_links (mk_message ''user'' ''one'' None) [link_to ''https://a.org/''],
      mk_message ''assistant'' ''two'' None,
      with_links (mk_message ''user'' ''three'' None)
        [link_to ''https://b.org/'', link_to ''https://b.org/''],
      mk_message ''assistant'' ''four'' None,
      mk_message ''user'' ''five'' None,
      with_links (mk_message ''assistant'' ''six'' None) [link_to ''https://c.org/'']]"

definition six_data :: export_data where
  "six_data = mk_data [] six_messages"

text \<open>
  The document that the universal extractor returns for a page with six turns. The
  second and the fourth turn show their trace; the first, the third and the sixth carry
  links.
\<close>

definition links_only :: "link_ref list \<Rightarrow> reference_set option" where
  "links_only ls = Some \<lparr> links = ls, attachments = [], documents = [], citations = [] \<rparr>"

definition page_messages :: "message list" where
  "page_messages =
     List.map_filter id
       [extractMessage 0 ''user'' ''one'' ''<p>one</p>'' ''2025-01-01T10:00:00.000Z'' []
          (links_only [link_to ''https://a.org/'']),
        extractMessage 1 ''assistant'' ''two and a half'' ''<p>two and a half</p>'' ''2025-01-01T10:00:00.000Z''
          [mk_block ''thinking'' ''Plan'' ''list the files'', mk_block ''tool_call'' ''Run'' ''ls''] None,
        extractMessage 2 ''user'' ''three'' ''<p>three</p>'' ''2025-01-01T10:00:00.000Z'' []
          (links_only [link_to ''https://b.org/'', link_to ''https://b.org/'']),
        extractMessage 3 ''assistant'' ''four'' ''<p>four</p>'' ''2025-01-01T10:00:00.000Z''
          [mk_block ''thinking'' ''Check'' ''read the output''] None,
        extractMessage 4 ''user'' ''five'' ''<p>five</p>'' ''2025-01-01T10:00:00.000Z'' [] None,
        extractMessage 5 ''assistant'' ''six'' ''<p>six</p>'' ''2025-01-01T10:00:00.000Z'' []
          (links_only [link_to ''https://c.org/''])]"

definition page_duration :: "message list \<Rightarrow> json" where
  "page_duration messages =
     JObj [(''start'', JStr ''2025-01-01T10:00:00.000Z''), (''end'', JStr ''2025-01-01T10:00:00.000Z''),
           (''durationMs'', JNum 0)]"

definition page_data :: export_data where
  "page_data =
     extractConversation page_duration
       (initial_metadata ''universal'' ''https://chat.example/c/1'' ''Files'' ''Files - Chat''
          ''2025-01-01T10:00:05.000Z'' ''Mozilla/5.0'')
       \<lparr> rh_original = Str ''<!DOCTYPE html>'', rh_expanded = Str ''<!DOCTYPE html>'' \<rparr>
       page_messages []"

text \<open>That document after the normalization pass.\<close>

definition page_normalized :: export_data where
  "page_normalized =
     (case snd (normalizeAndValidateExportData (Some page_data)) of
        None \<Rightarrow> page_data
      | Some exportData \<Rightarrow> exportData)"

text \<open>
  A document outside the extracted shape: a top-level block with a summary and no
  content, next to a block whose content is that summary.
\<close>

definition summary_only_data :: export_data where
  "summary_only_data =
     mk_data [mk_block ''thinking'' ''Plan'' '''', mk_block ''thinking'' ''Plan'' ''Plan'']
       [mk_message ''assistant'' ''Done.'' None]"














text \<open>The normalized document of the page, scoped to the second, third and fourth turn.\<close>

definition page_scoped :: export_data where
  "page_scoped =
     (case buildScopedExportData (range_options 2 4) page_normalized of
        Inl e \<Rightarrow> page_normalized
      | Inr scoped \<Rightarrow> scoped)"

section \<open>Properties of deduplication\<close>

lemma dedupe_from_empty_sig: "dedupe_from f (insert [] S) xs = dedupe_from f S xs"
  by (induction xs arbitrary: S) (auto simp: Let_def insert_commute)

lemma dedupe_from_append:
  "dedupe_from f S (xs @ ys) =
     dedupe_from f S xs @ dedupe_from f (S \<union> f ` set xs) ys"
proof (induction xs arbitrary: S)
  case Nil
  then show ?case by simp
next
  case (Cons x xs)
  show ?case
  proof (cases "f x = []")
    case True
    then show ?thesis using Cons.IH[of S] by (simp add: dedupe_from_empty_sig)
  next
    case False
    show ?thesis
    proof (cases "f x \<in> S")
      case True
      then show ?thesis using False Cons.IH[of S] by (simp add: insert_absorb)
    next
      case F2: False
      then show ?thesis using False Cons.IH[of "insert (f x) S"] by (simp add: Let_def)
    qed
  qed
qed

lemma dedupe_from_dedupe_from:
  "dedupe_from f S (dedupe_from f S' xs) = dedupe_from f (S \<union> S') xs"
proof (induction xs arbitrary: S S')
  case Nil
  then show ?case by simp
next
  case (Cons x xs)
  show ?case
  proof (cases "f x = [] \<or> f x \<in> S'")
    case True
    then show ?thesis using Cons.IH[of S S'] by auto
  next
    case False
    show ?thesis
    proof (cases "f x \<in> S")
      case True
      have "S \<union> insert (f x) S' = S \<union> S'" using True by auto
      then show ?thesis using False True Cons.IH[of S "insert (f x) S'"] by simp
    next
      case F2: False
      have "insert (f x) S \<union> insert (f x) S' = insert (f x) (S \<union> S')" by auto
      then show ?thesis using False F2 Cons.IH[of "insert (f x) S" "insert (f x) S'"] by simp
    qed
  qed
qed

lemma dedupe_from_filter:
  "distinct (map f xs) \<Longrightarrow> [] \<notin> f ` set xs \<Longrightarrow>
   dedupe_from f S xs = filter (\<lambda>x. f x \<notin> S) xs"
proof (induction xs arbitrary: S)
  case Nil
  then show ?case by simp
next
  case (Cons x xs)
  have rest: "dedupe_from f (insert (f x) S) xs = filter (\<lambda>y. f y \<notin> insert (f x) S) xs"
    using Cons by simp
  have "filter (\<lambda>y. f y \<notin> insert (f x) S) xs = filter (\<lambda>y. f y \<notin> S) xs"
    using Cons.prems(1) by (intro filter_cong) (auto simp: image_iff)
  with rest Cons show ?case by (auto simp: Let_def)
qed

lemma dedupe_from_sigs:
  "insert [] (S \<union> f ` set (dedupe_from f S us)) = insert [] (S \<union> f ` set us)"
proof (induction us arbitrary: S)
  case Nil
  then show ?case by simp
next
  case (Cons a us)
  show ?case
  proof (cases "f a = [] \<or> f a \<in> S")
    case True
    then have "insert [] (S \<union> f ` set (a # us)) = insert [] (S \<union> f ` set us)" by auto
    with True Cons.IH[of S] show ?thesis by simp
  next
    case False
    have l: "S \<union> f ` set (a # dedupe_from f (insert (f a) S) us)
          = insert (f a) S \<union> f ` set (dedupe_from f (insert (f a) S) us)" by auto
    have r: "S \<union> f ` set (a # us) = insert (f a) S \<union> f ` set us" by auto
    from False have "dedupe_from f S (a # us) = a # dedupe_from f (insert (f a) S) us"
      by (simp add: Let_def)
    then show ?thesis using Cons.IH[of "insert (f a) S"] l r by simp
  qed
qed

lemma dedupe_assoc:
  "dedupeObjectsBySignature (dedupeObjectsBySignature (xs @ ys) f @ zs) f =
   dedupeObjectsBySignature (xs @ dedupeObjectsBySignature (ys @ zs) f) f"
proof -
  have sigs: "insert [] (f ` set (dedupe_from f {} us)) = insert [] (f ` set us)" for us
    using dedupe_from_sigs[of "{}" f us] by simp
  have ins: "dedupe_from f (f ` set (dedupe_from f {} us)) vs = dedupe_from f (f ` set us) vs" for us vs
    using sigs[of us] by (metis dedupe_from_empty_sig)
  have l: "dedupeObjectsBySignature (dedupeObjectsBySignature (xs @ ys) f @ zs) f
           = dedupe_from f {} (xs @ ys) @ dedupe_from f (f ` set (xs @ ys)) zs"
    unfolding dedupeObjectsBySignature_def
    by (simp only: dedupe_from_append[of f "{}" "dedupe_from f {} (xs @ ys)" zs]
          dedupe_from_dedupe_from Un_empty_left ins)
  have r: "dedupeObjectsBySignature (xs @ dedupeObjectsBySignature (ys @ zs) f) f
           = dedupe_from f {} xs @ dedupe_from f (f ` set xs) (ys @ zs)"
    unfolding dedupeObjectsBySignature_def
    by (simp add: dedupe_from_append[of f "{}" xs] dedupe_from_dedupe_from)
  show ?thesis
    unfolding l r by (simp add: dedupe_from_append image_Un Un_assoc)
qed

lemma dedupe_self:
  assumes "distinct (map f xs)" "[] \<notin> f ` set xs"
  shows "dedupeObjectsBySignature (xs @ xs) f = xs"
  unfolding dedupeObjectsBySignature_def
  using assms by (simp add: dedupe_from_append dedupe_from_filter)

lemma dedupe_pair:
  assumes "distinct (map f xs)" "distinct (map f ys)" "[] \<notin> f ` set xs" "[] \<notin> f ` set ys"
  shows "dedupeObjectsBySignature (xs @ ys) f = xs @ filter (\<lambda>y. f y \<notin> f ` set xs) ys"
  unfolding dedupeObjectsBySignature_def
  using assms by (simp add: dedupe_from_append dedupe_from_filter)

lemma merge_link_sig_nonempty: "[] \<notin> merge_link_sig ` X"
  by (auto simp: merge_link_sig_def)

lemma file_sig_nonempty: "[] \<notin> file_sig ` X"
  by (auto simp: file_sig_def)

lemma citation_sig_nonempty: "[] \<notin> citation_sig ` X"
  by (auto simp: citation_sig_def)

lemma merge_fields:
  "links (merge A B) = dedupeObjectsBySignature (links A @ links B) merge_link_sig"
  "attachments (merge A B) = dedupeObjectsBySignature (attachments A @ attachments B) file_sig"
  "documents (merge A B) = dedupeObjectsBySignature (documents A @ documents B) file_sig"
  "citations (merge A B) = dedupeObjectsBySignature (citations A @ citations B) citation_sig"
  by (simp_all add: merge_def mergeReferences_def List.map_filter_simps)

lemma merge_more: "reference_set.more (merge A B) = ()"
  by simp

text \<open>
  Claim C9. For reference sets \<open>A\<close>, \<open>B\<close>, \<open>C\<close> whose four lists are already
  deduplicated by signature, merging is associative, merging a set with itself returns
  the set unchanged, and each list of \<open>merge A B\<close> is the list of \<open>A\<close> followed by the
  items of \<open>B\<close> whose signature does not occur in \<open>A\<close>: the lists are concatenated and
  the first occurrence of every signature is kept, in order.
\<close>

theorem merge_associative_idempotent:
  assumes "deduplicated A" and "deduplicated B" and "deduplicated C"
  shows "merge (merge A B) C = merge A (merge B C)
       \<and> merge A A = A
       \<and> links (merge A B) =
           links A @ filter (\<lambda>x. merge_link_sig x \<notin> merge_link_sig ` set (links A)) (links B)
       \<and> attachments (merge A B) =
           attachments A @ filter (\<lambda>x. file_sig x \<notin> file_sig ` set (attachments A)) (attachments B)
       \<and> documents (merge A B) =
           documents A @ filter (\<lambda>x. file_sig x \<notin> file_sig ` set (documents A)) (documents B)
       \<and> citations (merge A B) =
           citations A @ filter (\<lambda>x. citation_sig x \<notin> citation_sig ` set (citations A)) (citations B)"
proof -
  have assoc: "merge (merge A B) C = merge A (merge B C)"
    by (rule reference_set.equality) (simp_all add: merge_fields dedupe_assoc)
  have idem: "merge A A = A"
    using assms(1) unfolding deduplicated_def
    by (intro reference_set.equality)
       (simp_all add: merge_fields dedupe_self merge_link_sig_nonempty file_sig_nonempty
          citation_sig_nonempty)
  have first: "links (merge A B) =
           links A @ filter (\<lambda>x. merge_link_sig x \<notin> merge_link_sig ` set (links A)) (links B)"
    "attachments (merge A B) =
           attachments A @ filter (\<lambda>x. file_sig x \<notin> file_sig ` set (attachments A)) (attachments B)"
    "documents (merge A B) =
           documents A @ filter (\<lambda>x. file_sig x \<notin> file_sig ` set (documents A)) (documents B)"
    "citations (merge A B) =
           citations A @ filter (\<lambda>x. citation_sig x \<notin> citation_sig ` set (citations A)) (citations B)"
    using assms(1,2) unfolding deduplicated_def
    by (simp_all add: merge_fields dedupe_pair merge_link_sig_nonempty file_sig_nonempty
          citation_sig_nonempty)
  from assoc idem first show ?thesis by simp
qed

text \<open>The theorem at two concrete reference sets that share a link.\<close>

theorem merge_associative_idempotent_witness:
  "deduplicated ref_a \<and> deduplicated ref_b \<and> deduplicated ref_b
   \<and> merge (merge ref_a ref_b) ref_b = merge ref_a (merge ref_b ref_b)
   \<and> merge ref_a ref_a = ref_a
   \<and> links (merge ref_a ref_b) = links ref_b"
proof -
  have a: "deduplicated ref_a" by (simp add: deduplicated_def ref_a_def merge_link_sig_def)
  have b: "deduplicated ref_b"
    by (simp add: deduplicated_def ref_b_def merge_link_sig_def citation_sig_def)
  have "links (merge ref_a ref_b) = links ref_b"
    using merge_associative_idempotent[OF a b b]
    by (simp add: ref_a_def ref_b_def merge_link_sig_def)
  with a b merge_associative_idempotent[OF a b b] show ?thesis by simp
qed

section \<open>Properties of scope resolution\<close>

lemma resolve_range:
  assumes "1 \<le> n" and "1 \<le> s" and "1 \<le> e"
  shows "resolveMessageRange (range_options s e) n =
           \<lparr> range_start = min n s - 1, range_end = min n (max s e) - 1,
             range_label = ''range-'' @ string_of_int (min n s) @ ''-'' @ string_of_int (min n (max s e)) \<rparr>"
proof -
  have "min n (max (min n s) e) = min n (max s e)" by auto
  then show ?thesis
    using assms
    by (simp add: resolveMessageRange_def range_options_def positive_or_def parsePositiveInt_def
        Let_def max_absorb2)
qed

text \<open>
  Claim C6, as the code has it. For a conversation of \<open>n \<ge> 1\<close> messages and 1-based
  bounds \<open>s\<close>, \<open>e\<close>, a range request resolves to the 0-based inclusive interval that
  starts at \<open>s\<close> clamped into \<open>[1, n]\<close> and ends at \<open>max s e\<close> clamped into \<open>[1, n]\<close>.
  The start is never moved down to \<open>e\<close>: a reversed pair collapses to the single message
  at the clamped start instead of being reordered.
\<close>

theorem resolveMessageRange_range:
  assumes "1 \<le> n" and "1 \<le> s" and "1 \<le> e"
  shows "resolveMessageRange (range_options s e) n =
           \<lparr> range_start = min n s - 1, range_end = min n (max s e) - 1,
             range_label = ''range-'' @ string_of_int (min n s) @ ''-'' @ string_of_int (min n (max s e)) \<rparr>"
  using assms by (rule resolve_range)

text \<open>The theorem at \<open>range(2, 4)\<close> over six messages: messages 2 to 4.\<close>

theorem resolveMessageRange_range_witness:
  "(1::int) \<le> 6 \<and> (1::int) \<le> 2 \<and> (1::int) \<le> 4 \<and>
   range_start (resolveMessageRange (range_options 2 4) 6) = 1 \<and>
   range_end (resolveMessageRange (range_options 2 4) 6) = 3"
  using resolveMessageRange_range[of 6 2 4] by simp

text \<open>
  \<open>range(4, 2)\<close> over six messages selects message 4 alone (0-based interval \<open>[3, 3]\<close>),
  not messages 2 to 4.
\<close>

theorem resolveMessageRange_reversed_counterexample:
  "range_start (resolveMessageRange (range_options 4 2) 6) = 3 \<and>
   range_end (resolveMessageRange (range_options 4 2) 6) = 3 \<and>
   range_start (resolveMessageRange (range_options 4 2) 6) \<noteq> min 4 2 - 1"
  by (simp add: resolveMessageRange_def range_options_def positive_or_def parsePositiveInt_def
        Let_def)

section \<open>Properties of normalization\<close>

lemma dedupe_message_blocks_Nil_iff:
  "dedupe_message_blocks S xs = [] \<longleftrightarrow> (\<forall>x\<in>set xs. block_signature x \<in> S)"
  by (induction xs arbitrary: S) (auto simp: Let_def)

lemma normalize_message_None_iff:
  "is_string (m_content m) \<Longrightarrow> normalize_message i m = None \<longleftrightarrow> \<not> survives m"
  by (cases "m_thinkingBlocks m")
     (auto simp: normalize_message_def survives_def blank_def Let_def
        dedupe_message_blocks_Nil_iff list_ex_iff filter_empty_conv)

lemma map_filter_map_index_Nil_iff:
  "List.map_filter id (map_index f i xs) = [] \<longleftrightarrow> (\<forall>k<length xs. f (i + k) (xs ! k) = None)"
proof (induction xs arbitrary: i)
  case Nil
  then show ?case by (simp add: List.map_filter_simps)
next
  case (Cons x xs)
  have "(\<forall>k<length (x # xs). f (i + k) ((x # xs) ! k) = None)
        \<longleftrightarrow> f i x = None \<and> (\<forall>k<length xs. f (Suc i + k) (xs ! k) = None)"
    by (auto simp: less_Suc_eq_0_disj)
  then show ?case using Cons.IH[of "Suc i"]
    by (cases "f i x") (auto simp: List.map_filter_simps)
qed

lemma normalize_messages_Nil_iff:
  "normalize_messages ms = [] \<longleftrightarrow> (\<forall>m\<in>set ms. \<not> survives m)"
proof -
  let ?fs = "filter (\<lambda>m. is_string (m_content m)) ms"
  have "normalize_messages ms = [] \<longleftrightarrow> (\<forall>k<length ?fs. normalize_message (0 + k) (?fs ! k) = None)"
    unfolding normalize_messages_def by (rule map_filter_map_index_Nil_iff)
  also have "\<dots> \<longleftrightarrow> (\<forall>k<length ?fs. \<not> survives (?fs ! k))"
  proof -
    have "is_string (m_content (?fs ! k))" if "k < length ?fs" for k
      using nth_mem[OF that] by simp
    then show ?thesis by (simp add: normalize_message_None_iff)
  qed
  also have "\<dots> \<longleftrightarrow> (\<forall>m\<in>set ?fs. \<not> survives m)"
    by (simp only: all_set_conv_all_nth)
  also have "\<dots> \<longleftrightarrow> (\<forall>m\<in>set ms. \<not> survives m)"
    by (auto simp: survives_def)
  finally show ?thesis .
qed

text \<open>
  Claim C5. For a document with a message array: when no message survives the filtering
  step the pass throws the validation error \<open>No messages found to export\<close> and returns
  nothing; when at least one message survives it returns normally and leaves the
  surviving messages, at least one, in the document.
\<close>

theorem normalize_fails_iff_no_message_survives:
  assumes "ed_messages d = Some ms"
  shows "((\<forall>m\<in>set ms. \<not> survives m) \<longrightarrow>
            fst (normalizeAndValidateExportData (Some d)) = Some (Error ''No messages found to export''))
       \<and> ((\<exists>m\<in>set ms. survives m) \<longrightarrow>
            (\<exists>d'. normalizeAndValidateExportData (Some d) = (None, Some d')
                 \<and> ed_messages d' = Some (normalize_messages ms)
                 \<and> normalize_messages ms \<noteq> []))"
  using assms normalize_messages_Nil_iff[of ms]
  by (auto simp: normalizeAndValidateExportData_def Let_def)

text \<open>The theorem at a document with one blank message and at one with a message that survives.\<close>

theorem normalize_fails_iff_no_message_survives_witness:
  "ed_messages blank_data = Some [mk_message ''assistant'' ''  '' None]
   \<and> \<not> survives (mk_message ''assistant'' ''  '' None)
   \<and> fst (normalizeAndValidateExportData (Some blank_data)) = Some (Error ''No messages found to export'')
   \<and> ed_messages counted_data = Some [counted_message]
   \<and> survives counted_message
   \<and> fst (normalizeAndValidateExportData (Some counted_data)) = None"
proof -
  have b: "ed_messages blank_data = Some [mk_message ''assistant'' ''  '' None]"
    by (simp add: blank_data_def mk_data_def)
  have nb: "\<not> survives (mk_message ''assistant'' ''  '' None)" by code_simp
  have c: "ed_messages counted_data = Some [counted_message]"
    by (simp add: counted_data_def mk_data_def)
  have sc: "survives counted_message" by code_simp
  from normalize_fails_iff_no_message_survives[OF b] nb
  have 1: "fst (normalizeAndValidateExportData (Some blank_data)) = Some (Error ''No messages found to export'')"
    by simp
  from normalize_fails_iff_no_message_survives[OF c] sc
  have 2: "fst (normalizeAndValidateExportData (Some counted_data)) = None"
    by auto
  from b nb c sc 1 2 show ?thesis by simp
qed

lemma bar_only: "s @ CHR ''|'' # t = ''|'' \<longleftrightarrow> s = [] \<and> t = []"
  by (cases s) auto

lemma blank_block_signature: "blank_block b \<longleftrightarrow> block_signature b = ''|''"
  by (auto simp: blank_block_def blank_def block_signature_def bar_only)

lemma dedupe_aggregate_step:
  "dedupe_aggregate S i (b # rest) =
     (if blank_block b \<or> block_signature b \<in> S then dedupe_aggregate S (Suc i) rest
      else normalized_block i b # dedupe_aggregate (insert (block_signature b) S) (Suc i) rest)"
  by (auto simp: Let_def blank_block_def blank_def)

lemma sigs_seen_snoc:
  "sigs_seen (pre @ [b]) = (if blank_block b then sigs_seen pre else insert (block_signature b) (sigs_seen pre))"
  by (auto simp: sigs_seen_def)

lemma first_with_signature_here:
  "first_with_signature (pre @ b # rest) (length pre) \<longleftrightarrow>
     \<not> blank_block b \<and> block_signature b \<notin> sigs_seen pre"
proof -
  have "\<not> blank_block b \<Longrightarrow>
      block_signature b \<notin> block_signature ` set pre \<longleftrightarrow> block_signature b \<notin> sigs_seen pre"
    by (auto simp: sigs_seen_def blank_block_signature)
  then show ?thesis
    by (auto simp: first_with_signature_def)
qed

lemma dedupe_aggregate_first_from:
  "dedupe_aggregate (sigs_seen pre) (length pre) blocks =
     map (\<lambda>k. normalized_block k ((pre @ blocks) ! k))
       (filter (first_with_signature (pre @ blocks)) [length pre..<length pre + length blocks])"
proof (induction blocks arbitrary: pre)
  case Nil
  then show ?case by simp
next
  case (Cons b rest)
  have upt: "[length pre..<length pre + length (b # rest)]
             = length pre # [length (pre @ [b])..<length (pre @ [b]) + length rest]"
    by (simp add: upt_rec)
  have app: "pre @ b # rest = (pre @ [b]) @ rest" by simp
  have here: "(pre @ b # rest) ! length pre = b" by simp
  have ih: "dedupe_aggregate (sigs_seen (pre @ [b])) (Suc (length pre)) rest =
     map (\<lambda>k. normalized_block k ((pre @ b # rest) ! k))
       (filter (first_with_signature (pre @ b # rest))
          [length (pre @ [b])..<length (pre @ [b]) + length rest])"
    using Cons.IH[of "pre @ [b]"] by simp
  show ?case
  proof (cases "blank_block b \<or> block_signature b \<in> sigs_seen pre")
    case True
    then have "sigs_seen (pre @ [b]) = sigs_seen pre"
      by (auto simp: sigs_seen_snoc)
    with True ih show ?thesis
      unfolding upt dedupe_aggregate_step
      by (simp add: first_with_signature_here del: dedupe_aggregate.simps)
  next
    case False
    then have "sigs_seen (pre @ [b]) = insert (block_signature b) (sigs_seen pre)"
      by (auto simp: sigs_seen_snoc)
    with False ih show ?thesis
      unfolding upt dedupe_aggregate_step
      by (simp add: first_with_signature_here here del: dedupe_aggregate.simps)
  qed
qed

lemma dedupe_aggregate_first:
  "dedupe_aggregate {} 0 blocks =
     map (\<lambda>k. normalized_block k (blocks ! k))
       (filter (first_with_signature blocks) [0..<length blocks])"
  using dedupe_aggregate_first_from[of "[]" blocks] by (simp add: sigs_seen_def)

lemma normalize_flat_list:
  assumes "ed_messages d = Some ms"
  shows "\<exists>d'. snd (normalizeAndValidateExportData (Some d)) = Some d'
            \<and> ed_thinkingBlocks d' = Some (dedupe_aggregate {} 0 (aggregate_blocks d ms))
            \<and> ed_messages d' = Some (normalize_messages ms)"
  using assms by (simp add: normalizeAndValidateExportData_def Let_def)

text \<open>
  Claim C2, as the code has it. The flat list that normalization leaves behind holds, in
  aggregate order (top-level blocks first, then each message's blocks), the normalized
  form of every block that is not blank and is the first with its signature; the
  signature is the trimmed summary, a bar and the first 600 characters of the trimmed
  content, compared case-sensitively. Of two blocks that collide exactly one is
  retained, the earlier one, and it keeps its own type (\<open>thinking\<close> when it has none):
  no priority among types is consulted.
\<close>

theorem normalization_dedup_keeps_first:
  assumes "ed_messages d = Some ms"
  shows "\<exists>d'. snd (normalizeAndValidateExportData (Some d)) = Some d'
            \<and> ed_thinkingBlocks d' =
                Some (map (\<lambda>k. normalized_block k (aggregate_blocks d ms ! k))
                        (filter (first_with_signature (aggregate_blocks d ms))
                           [0..<length (aggregate_blocks d ms)]))
            \<and> (\<forall>k b. b_type (normalized_block k b) = Str (or_default (b_type b) ''thinking''))
            \<and> (\<forall>b. block_signature b =
                  trim (or_empty (b_summary b)) @ ''|'' @ take 600 (trim (or_empty (b_content b))))"
  using normalize_flat_list[OF assms]
  by (auto simp: dedupe_aggregate_first normalized_block_def Let_def block_signature_def)

text \<open>The theorem at a turn whose trace was captured as \<open>thinking\<close>, then as \<open>tool_call\<close>.\<close>

theorem normalization_dedup_keeps_first_witness:
  "ed_messages collide_data = Some (the (ed_messages collide_data))
   \<and> map_option (map b_type)
       (Option.bind (snd (normalizeAndValidateExportData (Some collide_data))) ed_thinkingBlocks)
     = Some [Str ''thinking'']"
proof -
  have h: "ed_messages collide_data = Some (the (ed_messages collide_data))"
    by (simp add: collide_data_def mk_data_def)
  have agg: "aggregate_blocks collide_data (the (ed_messages collide_data)) =
          [mk_block ''thinking'' ''Plan'' ''list the files'',
           mk_block ''tool_call'' ''Plan'' ''list the files'']"
    by (simp add: collide_data_def mk_data_def aggregate_blocks_def mk_message_def)
  have f: "map (\<lambda>k. normalized_block k ([mk_block ''thinking'' ''Plan'' ''list the files'',
                 mk_block ''tool_call'' ''Plan'' ''list the files''] ! k))
             (filter (first_with_signature [mk_block ''thinking'' ''Plan'' ''list the files'',
                 mk_block ''tool_call'' ''Plan'' ''list the files''])
                [0..<length [mk_block ''thinking'' ''Plan'' ''list the files'',
                 mk_block ''tool_call'' ''Plan'' ''list the files'']])
           = [normalized_block 0 (mk_block ''thinking'' ''Plan'' ''list the files'')]"
    by code_simp
  from normalization_dedup_keeps_first[OF h] obtain d' where
    d': "snd (normalizeAndValidateExportData (Some collide_data)) = Some d'"
    and tb: "ed_thinkingBlocks d' =
                Some (map (\<lambda>k. normalized_block k (aggregate_blocks collide_data (the (ed_messages collide_data)) ! k))
                        (filter (first_with_signature (aggregate_blocks collide_data (the (ed_messages collide_data))))
                           [0..<length (aggregate_blocks collide_data (the (ed_messages collide_data)))]))"
    and ty: "\<forall>k b. b_type (normalized_block k b) = Str (or_default (b_type b) ''thinking'')"
    by blast
  have "ed_thinkingBlocks d' = Some [normalized_block 0 (mk_block ''thinking'' ''Plan'' ''list the files'')]"
    using tb unfolding agg f .
  then have "map_option (map b_type) (ed_thinkingBlocks d') = Some [Str ''thinking'']"
    using ty by (simp add: mk_block_def)
  with d' h show ?thesis by simp
qed

text \<open>
  For a \<open>thinking\<close> block followed by a \<open>tool_call\<close> block with the same summary and
  content the surviving block has type \<open>thinking\<close>, not \<open>tool_call\<close>.
\<close>

theorem normalization_priority_counterexample:
  "map_option (map b_type)
       (Option.bind (snd (normalizeAndValidateExportData (Some collide_data))) ed_thinkingBlocks)
     = Some [Str ''thinking'']
   \<and> map_option (map b_type)
       (Option.bind (snd (normalizeAndValidateExportData (Some collide_data))) ed_thinkingBlocks)
     \<noteq> Some [Str ''tool_call'']"
  by code_simp

lemma set_map_filter_map_index:
  "y \<in> set (List.map_filter id (map_index f i xs)) \<longleftrightarrow> (\<exists>k<length xs. f (i + k) (xs ! k) = Some y)"
proof (induction xs arbitrary: i)
  case Nil
  then show ?case by (simp add: List.map_filter_simps)
next
  case (Cons x xs)
  have "(\<exists>k<length (x # xs). f (i + k) ((x # xs) ! k) = Some y)
        \<longleftrightarrow> f i x = Some y \<or> (\<exists>k<length xs. f (Suc i + k) (xs ! k) = Some y)"
    by (auto simp: less_Suc_eq_0_disj)
  then show ?case using Cons.IH[of "Suc i"]
    by (cases "f i x") (auto simp: List.map_filter_simps)
qed

lemma normalize_messages_source:
  assumes "m' \<in> set (normalize_messages ms)"
  shows "\<exists>m\<in>set ms. \<exists>i. is_string (m_content m) \<and> normalize_message i m = Some m'"
proof -
  let ?fs = "filter (\<lambda>m. is_string (m_content m)) ms"
  from assms obtain k where k: "k < length ?fs" "normalize_message (0 + k) (?fs ! k) = Some m'"
    unfolding normalize_messages_def set_map_filter_map_index by blast
  have "?fs ! k \<in> set ?fs" using k(1) by (rule nth_mem)
  then have "?fs ! k \<in> set ms" "is_string (m_content (?fs ! k))" by auto
  with k(2) show ?thesis by blast
qed

lemma normalize_message_counts:
  assumes "normalize_message i m = Some m'"
  shows "m_content m' = Str (trim (or_empty (m_content m)))"
    and "m_wordCount m' = Some (case m_wordCount m of None \<Rightarrow> countWords (trim (or_empty (m_content m)))
                                 | Some n \<Rightarrow> if n = 0 then countWords (trim (or_empty (m_content m))) else n)"
    and "m_characterCount m' = Some (case m_characterCount m of None \<Rightarrow> int (length (trim (or_empty (m_content m))))
                                 | Some n \<Rightarrow> if n = 0 then int (length (trim (or_empty (m_content m)))) else n)"
  using assms
  by (auto simp: normalize_message_def Let_def split: if_splits option.splits)

lemma dedupe_aggregate_source:
  "nb \<in> set (dedupe_aggregate S i bs) \<Longrightarrow> \<exists>b\<in>set bs. \<exists>k. \<not> blank_block b \<and> nb = normalized_block k b"
proof (induction bs arbitrary: S i)
  case Nil
  then show ?case by simp
next
  case (Cons b bs)
  then show ?case
    unfolding dedupe_aggregate_step
    by (auto split: if_splits simp del: dedupe_aggregate.simps)
qed

lemma normalized_block_counts:
  "b_content (normalized_block k b) = Str (block_text b)"
  "b_wordCount (normalized_block k b) =
     Some (case b_wordCount b of None \<Rightarrow> countWords (block_text b)
           | Some n \<Rightarrow> if n = 0 then countWords (block_text b) else n)"
  "b_characterCount (normalized_block k b) =
     Some (case b_characterCount b of None \<Rightarrow> int (length (block_text b))
           | Some n \<Rightarrow> if n = 0 then int (length (block_text b)) else n)"
  by (auto simp: normalized_block_def block_text_def blank_def Let_def split: option.splits)

text \<open>
  Claim C7, as the code has it. Every message of the normalized document comes from an
  input message: its content is that message's trimmed content, and its \<open>wordCount\<close>
  (\<open>characterCount\<close>) is the incoming count when that is present and not zero, and is
  recomputed from the trimmed content (its white-space separated words, its length) only
  when the incoming count is missing or zero. The blocks of the flat list follow the same
  rule with the block's text. A non-zero count from extraction is therefore kept, right
  or wrong.
\<close>

theorem normalization_keeps_nonzero_counts:
  assumes "ed_messages d = Some ms"
    and "snd (normalizeAndValidateExportData (Some d)) = Some d'"
  shows "(\<forall>m'. ed_messages d' = Some ms' \<and> m' \<in> set ms' \<longrightarrow>
            (\<exists>m\<in>set ms.
               m_content m' = Str (trim (or_empty (m_content m))) \<and>
               m_wordCount m' =
                 Some (case m_wordCount m of
                         None \<Rightarrow> countWords (trim (or_empty (m_content m)))
                       | Some n \<Rightarrow> if n = 0 then countWords (trim (or_empty (m_content m))) else n) \<and>
               m_characterCount m' =
                 Some (case m_characterCount m of
                         None \<Rightarrow> int (length (trim (or_empty (m_content m))))
                       | Some n \<Rightarrow> if n = 0 then int (length (trim (or_empty (m_content m)))) else n)))
       \<and> (\<forall>b'. ed_thinkingBlocks d' = Some bs' \<and> b' \<in> set bs' \<longrightarrow>
            (\<exists>b\<in>set (aggregate_blocks d ms).
               b_content b' = Str (block_text b) \<and>
               b_wordCount b' =
                 Some (case b_wordCount b of
                         None \<Rightarrow> countWords (block_text b)
                       | Some n \<Rightarrow> if n = 0 then countWords (block_text b) else n) \<and>
               b_characterCount b' =
                 Some (case b_characterCount b of
                         None \<Rightarrow> int (length (block_text b))
                       | Some n \<Rightarrow> if n = 0 then int (length (block_text b)) else n)))"
proof -
  from normalize_flat_list[OF assms(1)] assms(2)
  have tb: "ed_thinkingBlocks d' = Some (dedupe_aggregate {} 0 (aggregate_blocks d ms))"
    and msgs: "ed_messages d' = Some (normalize_messages ms)" by auto
  have m: "\<exists>m\<in>set ms.
               m_content m' = Str (trim (or_empty (m_content m))) \<and>
               m_wordCount m' =
                 Some (case m_wordCount m of
                         None \<Rightarrow> countWords (trim (or_empty (m_content m)))
                       | Some n \<Rightarrow> if n = 0 then countWords (trim (or_empty (m_content m))) else n) \<and>
               m_characterCount m' =
                 Some (case m_characterCount m of
                         None \<Rightarrow> int (length (trim (or_empty (m_content m))))
                       | Some n \<Rightarrow> if n = 0 then int (length (trim (or_empty (m_content m)))) else n)"
    if "m' \<in> set (normalize_messages ms)" for m'
  proof -
    from normalize_messages_source[OF that] obtain m i where
      "m \<in> set ms" "normalize_message i m = Some m'" by blast
    then show ?thesis using normalize_message_counts[of i m m'] by blast
  qed
  have b: "\<exists>b\<in>set (aggregate_blocks d ms).
               b_content b' = Str (block_text b) \<and>
               b_wordCount b' =
                 Some (case b_wordCount b of
                         None \<Rightarrow> countWords (block_text b)
                       | Some n \<Rightarrow> if n = 0 then countWords (block_text b) else n) \<and>
               b_characterCount b' =
                 Some (case b_characterCount b of
                         None \<Rightarrow> int (length (block_text b))
                       | Some n \<Rightarrow> if n = 0 then int (length (block_text b)) else n)"
    if "b' \<in> set (dedupe_aggregate {} 0 (aggregate_blocks d ms))" for b'
  proof -
    from dedupe_aggregate_source[OF that] obtain b0 k where
      "b0 \<in> set (aggregate_blocks d ms)" "b' = normalized_block k b0" by blast
    then show ?thesis using normalized_block_counts[of k b0] by blast
  qed
  from m b tb msgs show ?thesis by auto
qed

text \<open>
  The theorem at a message that arrives with the text \<open>hello world\<close> and a trailing
  space, counted as 3 words and 12 characters.
\<close>

theorem normalization_keeps_nonzero_counts_witness:
  "ed_messages counted_data = Some [counted_message]
   \<and> (\<exists>d' m'. snd (normalizeAndValidateExportData (Some counted_data)) = Some d'
        \<and> ed_messages d' = Some [m']
        \<and> m_content m' = Str ''hello world''
        \<and> m_wordCount m' = Some 3 \<and> m_characterCount m' = Some 12)"
proof -
  let ?D = "the (snd (normalizeAndValidateExportData (Some counted_data)))"
  let ?M = "hd (the (ed_messages ?D))"
  have h1: "ed_messages counted_data = Some [counted_message]"
    by (simp add: counted_data_def mk_data_def)
  have h2: "snd (normalizeAndValidateExportData (Some counted_data)) = Some ?D"
    by code_simp
  have h3: "ed_messages ?D = Some [?M]"
    by code_simp
  from normalization_keeps_nonzero_counts[OF h1 h2, of "[?M]"] h3
  have "\<exists>m\<in>set [counted_message].
               m_content ?M = Str (trim (or_empty (m_content m))) \<and>
               m_wordCount ?M =
                 Some (case m_wordCount m of
                         None \<Rightarrow> countWords (trim (or_empty (m_content m)))
                       | Some n \<Rightarrow> if n = 0 then countWords (trim (or_empty (m_content m))) else n) \<and>
               m_characterCount ?M =
                 Some (case m_characterCount m of
                         None \<Rightarrow> int (length (trim (or_empty (m_content m))))
                       | Some n \<Rightarrow> if n = 0 then int (length (trim (or_empty (m_content m)))) else n)"
    by auto
  moreover have "trim ''hello world '' = ''hello world''" by code_simp
  ultimately have "m_content ?M = Str ''hello world'' \<and> m_wordCount ?M = Some 3 \<and> m_characterCount ?M = Some 12"
    by (simp add: counted_message_def mk_message_def)
  with h1 h2 h3 show ?thesis by blast
qed

text \<open>
  That message leaves normalization with the content \<open>hello world\<close>, which has 2 words
  and 11 characters, and with the counts 3 and 12 it came with.
\<close>

theorem normalization_recount_counterexample:
  "map_option (map m_wordCount)
     (Option.bind (snd (normalizeAndValidateExportData (Some counted_data))) ed_messages) = Some [Some 3]
   \<and> map_option (map m_characterCount)
     (Option.bind (snd (normalizeAndValidateExportData (Some counted_data))) ed_messages) = Some [Some 12]
   \<and> map_option (map m_content)
     (Option.bind (snd (normalizeAndValidateExportData (Some counted_data))) ed_messages) = Some [Str ''hello world'']
   \<and> countWords (trim ''hello world '') = 2
   \<and> length (trim ''hello world '') = 11"
  by code_simp


text \<open>
  Claim C10. When the pass throws its zero-messages error, the export data it leaves
  behind is the input with the flat list replaced by the deduplicated aggregate, the
  message list replaced by the empty list, and the metadata recomputed: zero messages,
  the new block count, an empty reference index with total 0, no uploaded documents.
  Nothing is rolled back.
\<close>

theorem normalization_not_atomic:
  assumes "normalizeAndValidateExportData (Some d) = (Some (Error ''No messages found to export''), s')"
  shows "\<exists>ms md'. ed_messages d = Some ms
          \<and> s' = Some (d \<lparr> ed_thinkingBlocks := Some (dedupe_aggregate {} 0 (aggregate_blocks d ms)),
                            ed_messages := Some [],
                            ed_metadata := Some md' \<rparr>)
          \<and> md_messageCount md' = Some 0
          \<and> md_thinkingBlockCount md' = Some (int (length (dedupe_aggregate {} 0 (aggregate_blocks d ms))))
          \<and> md_hasThinkingBlocks md' = Some (dedupe_aggregate {} 0 (aggregate_blocks d ms) \<noteq> [])
          \<and> md_referenceIndex md' =
              Some \<lparr> links = [], attachments = [], documents = [], citations = [], ri_total = Some 0 \<rparr>
          \<and> md_referenceCount md' = Some 0 \<and> md_linkCount md' = Some 0
          \<and> md_attachmentCount md' = Some 0 \<and> md_citationCount md' = Some 0
          \<and> md_uploadedDocuments md' = Some [] \<and> md_uploadedDocumentCount md' = Some 0"
proof (cases "ed_messages d")
  case None
  with assms show ?thesis by (simp add: normalizeAndValidateExportData_def)
next
  case (Some ms)
  let ?D = "dedupe_aggregate {} 0 (aggregate_blocks d ms)"
  let ?md = "recompute_metadata (case ed_metadata d of None \<Rightarrow> empty_metadata | Some md \<Rightarrow> md) ?D []"
  have idx: "computeReferenceIndexFromMessages [] =
      \<lparr> links = [], attachments = [], documents = [], citations = [], ri_total = Some 0 \<rparr>"
    by (simp add: computeReferenceIndexFromMessages_def dedupeBySignature_def)
  have up: "computeUploadedDocumentsFromMessages [] = []"
    by (simp add: computeUploadedDocumentsFromMessages_def dedupeBySignature_def)
  from assms Some have empty: "normalize_messages ms = []"
    by (auto simp: normalizeAndValidateExportData_def Let_def split: if_splits)
  with assms Some have s': "s' = Some (d \<lparr> ed_thinkingBlocks := Some ?D, ed_messages := Some [],
                                            ed_metadata := Some ?md \<rparr>)"
    by (simp add: normalizeAndValidateExportData_def Let_def)
  have "md_messageCount ?md = Some 0
          \<and> md_thinkingBlockCount ?md = Some (int (length ?D))
          \<and> md_hasThinkingBlocks ?md = Some (?D \<noteq> [])
          \<and> md_referenceIndex ?md =
              Some \<lparr> links = [], attachments = [], documents = [], citations = [], ri_total = Some 0 \<rparr>
          \<and> md_referenceCount ?md = Some 0 \<and> md_linkCount ?md = Some 0
          \<and> md_attachmentCount ?md = Some 0 \<and> md_citationCount ?md = Some 0
          \<and> md_uploadedDocuments ?md = Some [] \<and> md_uploadedDocumentCount ?md = Some 0"
    by (simp add: recompute_metadata_def Let_def idx up)
  with Some s' show ?thesis by blast
qed

text \<open>
  The theorem at a document whose only message is blank: the call throws, and the
  document it leaves differs from the one it was given.
\<close>

theorem normalization_not_atomic_witness:
  "(\<exists>s'. normalizeAndValidateExportData (Some blank_data) = (Some (Error ''No messages found to export''), s')
      \<and> s' \<noteq> Some blank_data
      \<and> map_option (map b_id) (Option.bind s' ed_thinkingBlocks) = Some [Str ''thinking_0'']
      \<and> map_option md_messageCount (Option.bind s' ed_metadata) = Some (Some 0)
      \<and> map_option md_thinkingBlockCount (Option.bind s' ed_metadata) = Some (Some 1))"
proof -
  let ?s = "snd (normalizeAndValidateExportData (Some blank_data))"
  have h: "normalizeAndValidateExportData (Some blank_data) = (Some (Error ''No messages found to export''), ?s)"
    by code_simp
  have agg: "dedupe_aggregate {} 0 (aggregate_blocks blank_data [mk_message ''assistant'' ''  '' None])
             = [normalized_block 0 (mk_block ''thinking'' '''' ''step one'')]"
    by code_simp
  have ms: "ed_messages blank_data = Some [mk_message ''assistant'' ''  '' None]"
    by (simp add: blank_data_def mk_data_def)
  from normalization_not_atomic[OF h] ms obtain md' where
    s0: "?s = Some (blank_data \<lparr> ed_thinkingBlocks := Some (dedupe_aggregate {} 0 (aggregate_blocks blank_data [mk_message ''assistant'' ''  '' None])),
                            ed_messages := Some [],
                            ed_metadata := Some md' \<rparr>)"
    and c0: "md_messageCount md' = Some 0"
       "md_thinkingBlockCount md' = Some (int (length (dedupe_aggregate {} 0 (aggregate_blocks blank_data [mk_message ''assistant'' ''  '' None]))))"
    by auto
  note s = s0[unfolded agg] and c = c0[unfolded agg]
  have ne: "?s \<noteq> Some blank_data"
    unfolding s by (simp add: blank_data_def mk_data_def)
  have nbid: "b_id (normalized_block 0 (mk_block ''thinking'' '''' ''step one'')) = Str ''thinking_0''"
    by code_simp
  have ids: "map_option (map b_id) (Option.bind ?s ed_thinkingBlocks) = Some [Str ''thinking_0'']"
    unfolding s by (simp add: nbid)
  from c have cnt: "map_option md_messageCount (Option.bind ?s ed_metadata) = Some (Some 0)"
     "map_option md_thinkingBlockCount (Option.bind ?s ed_metadata) = Some (Some 1)"
    unfolding s by simp_all
  show ?thesis
    by (rule exI[of _ ?s]) (intro conjI h ne ids cnt)
qed


section \<open>Properties of scoping\<close>

lemma dedupe_from_subset: "set (dedupe_from f S xs) \<subseteq> set xs"
  by (induction xs arbitrary: S) (auto simp: Let_def)

lemma dedupe_from_sig_notin: "x \<in> set (dedupe_from f S xs) \<Longrightarrow> f x \<notin> S \<and> f x \<noteq> []"
  by (induction xs arbitrary: S) (auto simp: Let_def split: if_splits)

lemma dedupe_from_distinct: "distinct (map f (dedupe_from f S xs))"
proof (induction xs arbitrary: S)
  case Nil
  then show ?case by simp
next
  case (Cons x xs)
  have notin: "f x \<notin> f ` set (dedupe_from f (insert (f x) S) xs)"
  proof
    assume "f x \<in> f ` set (dedupe_from f (insert (f x) S) xs)"
    then obtain y where y: "y \<in> set (dedupe_from f (insert (f x) S) xs)" "f x = f y"
      by (rule imageE)
    from dedupe_from_sig_notin[OF y(1)] y(2) show False by simp
  qed
  show ?case
  proof (cases "f x = [] \<or> f x \<in> S")
    case True
    with Cons.IH[of S] show ?thesis by (simp add: Let_def)
  next
    case False
    with Cons.IH[of "insert (f x) S"] notin show ?thesis by (simp add: Let_def)
  qed
qed

lemma dedupe_from_image:
  assumes "[] \<notin> f ` set xs"
  shows "f ` set (dedupe_from f {} xs) = f ` set xs"
proof -
  have eq: "insert [] (f ` set (dedupe_from f {} xs)) = insert [] (f ` set xs)"
    using dedupe_from_sigs[of "{}" f xs] by simp
  have n: "[] \<notin> f ` set (dedupe_from f {} xs)"
  proof
    assume "[] \<in> f ` set (dedupe_from f {} xs)"
    then obtain y where y: "y \<in> set (dedupe_from f {} xs)" "[] = f y"
      by (rule imageE)
    from dedupe_from_sig_notin[OF y(1)] y(2) show False by simp
  qed
  have "f ` set (dedupe_from f {} xs) = insert [] (f ` set (dedupe_from f {} xs)) - {[]}"
    using n by simp
  also have "\<dots> = insert [] (f ` set xs) - {[]}" by (simp only: eq)
  also have "\<dots> = f ` set xs" using assms by simp
  finally show ?thesis .
qed

lemma dedupeBySignature_deduplication:
  "[] \<notin> f ` set xs \<Longrightarrow> deduplication_of f xs (dedupeBySignature xs f)"
  unfolding deduplication_of_def dedupeBySignature_def
  by (simp add: dedupe_from_distinct dedupe_from_subset dedupe_from_image)

lemma index_link_sig_nonempty: "[] \<notin> index_link_sig ` X"
  by (auto simp: index_link_sig_def)

lemma slice_2_4_of_6:
  assumes "length ms = 6"
  shows "js_slice ms 1 4 = [ms ! 1, ms ! 2, ms ! 3]"
proof -
  have s: "js_slice ms 1 4 = take 3 (drop 1 ms)"
    using assms by (simp add: js_slice_def)
  have n: "(1::nat) = Suc 0" "(2::nat) = Suc (Suc 0)" "(3::nat) = Suc (Suc (Suc 0))"
    by simp_all
  have d1: "drop (Suc 0) ms = ms ! Suc 0 # drop (Suc (Suc 0)) ms"
    using assms by (simp add: Cons_nth_drop_Suc)
  have d2: "drop (Suc (Suc 0)) ms = ms ! Suc (Suc 0) # drop (Suc (Suc (Suc 0))) ms"
    using assms by (simp add: Cons_nth_drop_Suc)
  have d3: "drop (Suc (Suc (Suc 0))) ms = ms ! Suc (Suc (Suc 0)) # drop (Suc (Suc (Suc (Suc 0)))) ms"
    using assms by (simp add: Cons_nth_drop_Suc)
  have "take (Suc (Suc (Suc 0))) (drop (Suc 0) ms) = [ms ! Suc 0, ms ! Suc (Suc 0), ms ! Suc (Suc (Suc 0))]"
    by (subst d1, subst d2, subst d3) simp
  then show ?thesis unfolding s n .
qed


lemma reference_index_deduplication:
  "deduplication_of index_link_sig (all_links ms) (links (computeReferenceIndexFromMessages ms))"
  "deduplication_of file_sig (all_attachments ms) (attachments (computeReferenceIndexFromMessages ms))"
  "deduplication_of file_sig (all_documents ms) (documents (computeReferenceIndexFromMessages ms))"
  "deduplication_of citation_sig (all_citations ms) (citations (computeReferenceIndexFromMessages ms))"
  "ri_total (computeReferenceIndexFromMessages ms) =
     Some (int (length (links (computeReferenceIndexFromMessages ms)))
           + int (length (attachments (computeReferenceIndexFromMessages ms)))
           + int (length (documents (computeReferenceIndexFromMessages ms)))
           + int (length (citations (computeReferenceIndexFromMessages ms))))"
  by (simp_all add: computeReferenceIndexFromMessages_def Let_def all_links_def all_attachments_def
        all_documents_def all_citations_def dedupeBySignature_deduplication index_link_sig_nonempty
        file_sig_nonempty citation_sig_nonempty comp_def)


lemma scoped_result:
  assumes "ed_messages d = Some ms"
  shows "buildScopedExportData options d =
           Inr (d \<lparr> ed_messages := Some (js_slice ms (range_start (resolveMessageRange options (int (length ms))))
                                                   (range_end (resolveMessageRange options (int (length ms))) + 1)),
                    ed_thinkingBlocks := Some (message_blocks (js_slice ms (range_start (resolveMessageRange options (int (length ms))))
                                                   (range_end (resolveMessageRange options (int (length ms))) + 1))),
                    ed_metadata := Some (scoped_metadata (case ed_metadata d of None \<Rightarrow> empty_metadata | Some md \<Rightarrow> md)
                        (range_label (resolveMessageRange options (int (length ms))))
                        (js_slice ms (range_start (resolveMessageRange options (int (length ms))))
                                                   (range_end (resolveMessageRange options (int (length ms))) + 1))) \<rparr>)"
  using assms
  by (simp add: buildScopedExportData_def Let_def message_blocks_def)


lemma scoped_metadata_fields:
  "md_messageCount (scoped_metadata base label slice) = Some (int (length slice))"
  "md_thinkingBlockCount (scoped_metadata base label slice) = Some (int (length (message_blocks slice)))"
  "md_referenceIndex (scoped_metadata base label slice) = Some (computeReferenceIndexFromMessages slice)"
  "md_referenceCount (scoped_metadata base label slice) = ri_total (computeReferenceIndexFromMessages slice)"
  "md_linkCount (scoped_metadata base label slice) = Some (int (length (links (computeReferenceIndexFromMessages slice))))"
  "md_attachmentCount (scoped_metadata base label slice) = Some (int (length (attachments (computeReferenceIndexFromMessages slice))))"
  "md_citationCount (scoped_metadata base label slice) = Some (int (length (citations (computeReferenceIndexFromMessages slice))))"
  "md_uploadedDocuments (scoped_metadata base label slice) = Some (computeUploadedDocumentsFromMessages slice)"
  "md_uploadedDocumentCount (scoped_metadata base label slice) = Some (int (length (computeUploadedDocumentsFromMessages slice)))"
  "md_scope (scoped_metadata base label slice) = Str label"
  "md_blockTypeBreakdown (scoped_metadata base label slice) = Some (blockTypeTally (message_blocks slice))"
  "md_totalWordCount (scoped_metadata base label slice)
     = Some (foldl (\<lambda>sum message. js_plus sum (num_or (m_wordCount message) 0)) 0 slice)"
  by (simp_all add: scoped_metadata_def Let_def message_blocks_def)

lemma scoped_metadata_inherited:
  "md_platform (scoped_metadata base label slice) = md_platform base"
  "md_url (scoped_metadata base label slice) = md_url base"
  "md_title (scoped_metadata base label slice) = md_title base"
  "md_rawDocumentTitle (scoped_metadata base label slice) = md_rawDocumentTitle base"
  "md_exportDate (scoped_metadata base label slice) = md_exportDate base"
  "md_hasThinkingBlocks (scoped_metadata base label slice) = md_hasThinkingBlocks base"
  "md_totalCharacterCount (scoped_metadata base label slice) = md_totalCharacterCount base"
  "md_userMessageCount (scoped_metadata base label slice) = md_userMessageCount base"
  "md_assistantMessageCount (scoped_metadata base label slice) = md_assistantMessageCount base"
  "md_conversationSummary (scoped_metadata base label slice) = md_conversationSummary base"
  "md_other (scoped_metadata base label slice) = md_other base"
  by (simp_all add: scoped_metadata_def Let_def)

lemma resolveMessageRange_fields:
  assumes "scope options = scope options'" and "scopeStart options = scopeStart options'"
    and "scopeEnd options = scopeEnd options'"
  shows "resolveMessageRange options n = resolveMessageRange options' n"
  by (simp only: resolveMessageRange_def assms)


lemma width_le: "width n \<le> k \<longleftrightarrow> n < 2 ^ k"
proof (induction n arbitrary: k rule: width.induct)
  case (1 n)
  show ?case
  proof (cases "n = 0")
    case True
    then show ?thesis by (simp add: width.simps)
  next
    case False
    show ?thesis
    proof (cases k)
      case 0
      with False show ?thesis by (simp add: width.simps[of n])
    next
      case (Suc k')
      from 1[OF False, of k'] have "width (n div 2) \<le> k' \<longleftrightarrow> n div 2 < 2 ^ k'" .
      moreover have "n div 2 < 2 ^ k' \<longleftrightarrow> n < 2 * 2 ^ k'" by auto
      ultimately show ?thesis using False Suc by (simp add: width.simps[of n])
    qed
  qed
qed

lemma to_double_exact: "\<bar>n\<bar> < 2 ^ 53 \<Longrightarrow> to_double n = n"
proof -
  assume a: "\<bar>n\<bar> < 2 ^ 53"
  then have "nat \<bar>n\<bar> < 2 ^ 53" by (simp add: nat_less_iff)
  then have "width (nat \<bar>n\<bar>) \<le> 53" by (simp only: width_le)
  then show ?thesis by (simp add: to_double_def Let_def)
qed

lemma js_sum_exact:
  assumes "\<forall>x\<in>set xs. 0 \<le> f x" and "0 \<le> a" and "a + sum_list (map f xs) < 2 ^ 53"
  shows "foldl (\<lambda>sum x. js_plus sum (f x)) a xs = a + sum_list (map f xs)"
  using assms
proof (induction xs arbitrary: a)
  case Nil
  then show ?case by simp
next
  case (Cons x xs)
  have nn: "0 \<le> sum_list (map f xs)" using Cons.prems(1) by (auto intro!: sum_list_nonneg)
  have fx: "0 \<le> f x" using Cons.prems(1) by simp
  have "\<bar>a + f x\<bar> < 2 ^ 53" using Cons.prems(2,3) nn fx by simp
  then have e: "js_plus a (f x) = a + f x" by (simp add: js_plus_def to_double_exact)
  have "foldl (\<lambda>sum x. js_plus sum (f x)) (a + f x) xs = (a + f x) + sum_list (map f xs)"
    using Cons.prems fx by (intro Cons.IH) simp_all
  then show ?case by (simp add: e)
qed

lemma map_of_bump:
  "map_of (bump acc k) t =
     (if t = k
      then (case map_of acc k of
              Some v \<Rightarrow> Some (plus_one v)
            | None \<Rightarrow> if k = ''__proto__'' then None
                      else if k \<in> set inherited_members then Some (Inherited k 1)
                      else Some (Count 1))
      else map_of acc t)"
  by (induction acc) auto

lemma tally_counts:
  assumes "t \<notin> set inherited_members"
  shows "map_of (blockTypeTally blocks) t =
           (if blocks_of_type t blocks = [] then None
            else Some (Count (int (length (blocks_of_type t blocks)))))"
proof (induction blocks rule: rev_induct)
  case Nil
  then show ?case by (simp add: blockTypeTally_def blocks_of_type_def)
next
  case (snoc b bs)
  have s: "blockTypeTally (bs @ [b]) = bump (blockTypeTally bs) (or_default (b_type b) ''thinking'')"
    by (simp add: blockTypeTally_def)
  have p: "t \<noteq> ''__proto__''" using assms by (auto simp add: inherited_members_def)
  show ?case
    unfolding s map_of_bump
    using snoc assms p by (auto simp add: blocks_of_type_def)
qed

lemma bump_key: "x \<in> set (bump acc k) \<Longrightarrow> fst x = k \<or> fst x \<in> fst ` set acc"
proof (induction acc)
  case Nil
  then show ?case by (simp split: if_splits)
next
  case (Cons e acc)
  then show ?case by (cases e) (force split: if_splits)
qed

lemma bump_keys: "fst ` set (bump acc k) \<subseteq> insert k (fst ` set acc)"
  using bump_key by fastforce

lemma bump_distinct: "distinct (map fst acc) \<Longrightarrow> distinct (map fst (bump acc k))"
proof (induction acc)
  case Nil
  then show ?case by simp
next
  case (Cons e acc)
  obtain k' v where e: "e = (k', v)" by (cases e)
  show ?case
  proof (cases "k' = k")
    case True
    with Cons.prems e show ?thesis by simp
  next
    case False
    from Cons.prems e have n: "k' \<notin> fst ` set acc" and d: "distinct (map fst acc)" by auto
    from bump_keys[of acc k] n False have "k' \<notin> fst ` set (bump acc k)" by auto
    with Cons.IH[OF d] e False show ?thesis by simp
  qed
qed

lemma tally_distinct: "distinct (map fst (blockTypeTally blocks))"
proof (induction blocks rule: rev_induct)
  case Nil
  then show ?case by (simp add: blockTypeTally_def)
next
  case (snoc b bs)
  have s: "blockTypeTally (bs @ [b]) = bump (blockTypeTally bs) (or_default (b_type b) ''thinking'')"
    by (simp add: blockTypeTally_def)
  show ?case unfolding s using snoc by (rule bump_distinct)
qed

text \<open>
  Claim C4. For a document with a message array and any options, the scoped document
  holds the slice of messages that the resolved range selects, the blocks of those
  messages, and metadata in which twelve properties are assigned from the slice: the
  message count, the block count, the total word count (the sum of the word counts of the
  slice, exact below \<open>2 ^ 53\<close>), the scope label, the table of block types (for every type
  that is not the name of an inherited member, the number of blocks of that type in the
  slice), the reference index (for each of the four lists a deduplication, by signature,
  of the references of the messages of the slice), the reference, link, attachment and
  citation counts, and the uploaded documents with their count. Every other property is
  the one of the metadata of the whole conversation: among them \<open>hasThinkingBlocks\<close>,
  \<open>totalCharacterCount\<close>, \<open>userMessageCount\<close>, \<open>assistantMessageCount\<close> and
  \<open>conversationSummary\<close>. For six messages and \<open>range(2, 4)\<close> the slice is messages 2 to 4
  and the message count is 3.
\<close>

theorem scoped_metadata_from_slice:
  assumes "ed_messages d = Some ms"
  shows "\<exists>slice base md idx ups table.
      buildScopedExportData options d =
        Inr (d \<lparr> ed_messages := Some slice, ed_thinkingBlocks := Some (message_blocks slice),
                 ed_metadata := Some md \<rparr>)
    \<and> slice = js_slice ms (range_start (resolveMessageRange options (int (length ms))))
                         (range_end (resolveMessageRange options (int (length ms))) + 1)
    \<and> base = (case ed_metadata d of None \<Rightarrow> empty_metadata | Some whole \<Rightarrow> whole)
    \<and> md_messageCount md = Some (int (length slice))
    \<and> md_thinkingBlockCount md = Some (int (length (message_blocks slice)))
    \<and> ((\<forall>m\<in>set slice. 0 \<le> num_or (m_wordCount m) 0)
         \<and> sum_list (map (\<lambda>m. num_or (m_wordCount m) 0) slice) < 2 ^ 53
        \<longrightarrow> md_totalWordCount md = Some (sum_list (map (\<lambda>m. num_or (m_wordCount m) 0) slice)))
    \<and> md_scope md = Str (range_label (resolveMessageRange options (int (length ms))))
    \<and> md_blockTypeBreakdown md = Some table
    \<and> distinct (map fst table)
    \<and> (\<forall>t. t \<notin> set inherited_members \<longrightarrow>
          map_of table t =
            (if blocks_of_type t (message_blocks slice) = [] then None
             else Some (Count (int (length (blocks_of_type t (message_blocks slice)))))))
    \<and> md_referenceIndex md = Some idx
    \<and> deduplication_of index_link_sig (all_links slice) (links idx)
    \<and> deduplication_of file_sig (all_attachments slice) (attachments idx)
    \<and> deduplication_of file_sig (all_documents slice) (documents idx)
    \<and> deduplication_of citation_sig (all_citations slice) (citations idx)
    \<and> md_referenceCount md =
          Some (int (length (links idx)) + int (length (attachments idx))
                + int (length (documents idx)) + int (length (citations idx)))
    \<and> md_linkCount md = Some (int (length (links idx)))
    \<and> md_attachmentCount md = Some (int (length (attachments idx)))
    \<and> md_citationCount md = Some (int (length (citations idx)))
    \<and> md_uploadedDocuments md = Some ups
    \<and> ups = computeUploadedDocumentsFromMessages slice
    \<and> md_uploadedDocumentCount md = Some (int (length ups))
    \<and> md_platform md = md_platform base
    \<and> md_url md = md_url base
    \<and> md_title md = md_title base
    \<and> md_rawDocumentTitle md = md_rawDocumentTitle base
    \<and> md_exportDate md = md_exportDate base
    \<and> md_hasThinkingBlocks md = md_hasThinkingBlocks base
    \<and> md_totalCharacterCount md = md_totalCharacterCount base
    \<and> md_userMessageCount md = md_userMessageCount base
    \<and> md_assistantMessageCount md = md_assistantMessageCount base
    \<and> md_conversationSummary md = md_conversationSummary base
    \<and> md_other md = md_other base
    \<and> (length ms = 6 \<and> scope options = Str ''range'' \<and> scopeStart options = Some 2
         \<and> scopeEnd options = Some 4
        \<longrightarrow> slice = [ms ! 1, ms ! 2, ms ! 3] \<and> md_messageCount md = Some 3)"
proof -
  let ?r = "resolveMessageRange options (int (length ms))"
  let ?slice = "js_slice ms (range_start ?r) (range_end ?r + 1)"
  let ?base = "case ed_metadata d of None \<Rightarrow> empty_metadata | Some whole \<Rightarrow> whole"
  let ?md = "scoped_metadata ?base (range_label ?r) ?slice"
  let ?idx = "computeReferenceIndexFromMessages ?slice"
  let ?ups = "computeUploadedDocumentsFromMessages ?slice"
  let ?table = "blockTypeTally (message_blocks ?slice)"
  let ?wc = "\<lambda>m. num_or (m_wordCount m) 0"
  have six: "?slice = [ms ! 1, ms ! 2, ms ! 3] \<and> md_messageCount ?md = Some 3"
    if "length ms = 6" "scope options = Str ''range''" "scopeStart options = Some 2"
       "scopeEnd options = Some 4"
  proof -
    have "resolveMessageRange (range_options 2 4) 6 =
            \<lparr> range_start = min 6 2 - 1, range_end = min 6 (max 2 4) - 1,
              range_label = ''range-'' @ string_of_int (min 6 2) @ ''-'' @ string_of_int (min 6 (max 2 4)) \<rparr>"
      by (rule resolve_range) simp_all
    moreover have "?r = resolveMessageRange (range_options 2 4) (int (length ms))"
      by (rule resolveMessageRange_fields) (simp_all add: that range_options_def)
    ultimately have "range_start ?r = 1" "range_end ?r + 1 = 4"
      using that(1) by simp_all
    then have "?slice = [ms ! 1, ms ! 2, ms ! 3]"
      using slice_2_4_of_6[OF that(1)] by simp
    then show ?thesis by (simp add: scoped_metadata_fields)
  qed
  have six': "length ms = 6 \<and> scope options = Str ''range'' \<and> scopeStart options = Some 2
         \<and> scopeEnd options = Some 4
        \<longrightarrow> ?slice = [ms ! 1, ms ! 2, ms ! 3] \<and> md_messageCount ?md = Some 3"
    using six by blast
  have rc: "md_referenceCount ?md =
          Some (int (length (links ?idx)) + int (length (attachments ?idx))
                + int (length (documents ?idx)) + int (length (citations ?idx)))"
    by (simp only: scoped_metadata_fields reference_index_deduplication(5))
  have wc: "(\<forall>m\<in>set ?slice. 0 \<le> ?wc m) \<and> sum_list (map ?wc ?slice) < 2 ^ 53
        \<longrightarrow> md_totalWordCount ?md = Some (sum_list (map ?wc ?slice))"
  proof (intro impI)
    assume a: "(\<forall>m\<in>set ?slice. 0 \<le> ?wc m) \<and> sum_list (map ?wc ?slice) < 2 ^ 53"
    have "foldl (\<lambda>sum m. js_plus sum (?wc m)) 0 ?slice = 0 + sum_list (map ?wc ?slice)"
      by (rule js_sum_exact) (use a in simp_all)
    then show "md_totalWordCount ?md = Some (sum_list (map ?wc ?slice))"
      by (simp add: scoped_metadata_fields)
  qed
  have tb: "\<forall>t. t \<notin> set inherited_members \<longrightarrow>
          map_of ?table t =
            (if blocks_of_type t (message_blocks ?slice) = [] then None
             else Some (Count (int (length (blocks_of_type t (message_blocks ?slice))))))"
    using tally_counts by blast
  show ?thesis
    apply (rule exI[of _ ?slice], rule exI[of _ ?base], rule exI[of _ ?md], rule exI[of _ ?idx],
           rule exI[of _ ?ups], rule exI[of _ ?table])
    apply (intro conjI scoped_result[OF assms] refl scoped_metadata_fields scoped_metadata_inherited
             reference_index_deduplication(1-4) rc six' wc tb tally_distinct)
    done
qed

text \<open>
  The theorem at the normalized document of the page with six turns, under
  \<open>range(2, 4)\<close>: three messages with six words, two blocks of type \<open>thinking\<close> and one of
  type \<open>tool_call\<close>, and one link, that of the third turn.
\<close>

theorem scoped_metadata_from_slice_witness:
  "length page_messages = 6
   \<and> map_option length (ed_messages page_normalized) = Some 6
   \<and> buildScopedExportData (range_options 2 4) page_normalized = Inr page_scoped
   \<and> map_option (map m_id) (ed_messages page_scoped) = Some [Str ''msg_1'', Str ''msg_2'', Str ''msg_3'']
   \<and> Option.bind (ed_metadata page_scoped) md_messageCount = Some 3
   \<and> Option.bind (ed_metadata page_scoped) md_totalWordCount = Some 6
   \<and> map_option (\<lambda>table. map_of table ''thinking'')
        (Option.bind (ed_metadata page_scoped) md_blockTypeBreakdown) = Some (Some (Count 2))
   \<and> map_option links (Option.bind (ed_metadata page_scoped) md_referenceIndex)
        = Some [link_to ''https://b.org/'']
   \<and> Option.bind (ed_metadata page_scoped) md_userMessageCount
        = Option.bind (ed_metadata page_normalized) md_userMessageCount"
proof -
  obtain ms where ms: "ed_messages page_normalized = Some ms" and len: "length ms = 6"
    and ids: "map m_id ms = [Str ''msg_0'', Str ''msg_1'', Str ''msg_2'', Str ''msg_3'', Str ''msg_4'', Str ''msg_5'']"
    and wcs: "map (\<lambda>m. num_or (m_wordCount m) 0) ms = [1, 4, 1, 1, 1, 1]"
  proof -
    have "map_option length (ed_messages page_normalized) = Some 6"
      "map_option (map m_id) (ed_messages page_normalized)
         = Some [Str ''msg_0'', Str ''msg_1'', Str ''msg_2'', Str ''msg_3'', Str ''msg_4'', Str ''msg_5'']"
      "map_option (map (\<lambda>m. num_or (m_wordCount m) 0)) (ed_messages page_normalized)
         = Some [1, 4, 1, 1, 1, 1]"
      by code_simp+
    then show ?thesis using that by (cases "ed_messages page_normalized") auto
  qed
  have opts: "scope (range_options 2 4) = Str ''range''" "scopeStart (range_options 2 4) = Some 2"
    "scopeEnd (range_options 2 4) = Some 4"
    by (simp_all add: range_options_def)
  from scoped_metadata_from_slice[OF ms, of "range_options 2 4"] obtain slice base md idx table where
    R: "buildScopedExportData (range_options 2 4) page_normalized =
          Inr (page_normalized \<lparr> ed_messages := Some slice,
                 ed_thinkingBlocks := Some (message_blocks slice), ed_metadata := Some md \<rparr>)"
    and base: "base = (case ed_metadata page_normalized of None \<Rightarrow> empty_metadata | Some whole \<Rightarrow> whole)"
    and total: "(\<forall>m\<in>set slice. 0 \<le> num_or (m_wordCount m) 0)
         \<and> sum_list (map (\<lambda>m. num_or (m_wordCount m) 0) slice) < 2 ^ 53
        \<longrightarrow> md_totalWordCount md = Some (sum_list (map (\<lambda>m. num_or (m_wordCount m) 0) slice))"
    and tb: "md_blockTypeBreakdown md = Some table"
    and tally: "\<forall>t. t \<notin> set inherited_members \<longrightarrow>
          map_of table t =
            (if blocks_of_type t (message_blocks slice) = [] then None
             else Some (Count (int (length (blocks_of_type t (message_blocks slice))))))"
    and idx: "md_referenceIndex md = Some idx"
    and users: "md_userMessageCount md = md_userMessageCount base"
    and six: "length ms = 6 \<and> scope (range_options 2 4) = Str ''range''
                \<and> scopeStart (range_options 2 4) = Some 2 \<and> scopeEnd (range_options 2 4) = Some 4
              \<longrightarrow> slice = [ms ! 1, ms ! 2, ms ! 3] \<and> md_messageCount md = Some 3"
    by blast
  from six len opts have slice: "slice = [ms ! 1, ms ! 2, ms ! 3]" and count: "md_messageCount md = Some 3"
    by simp_all
  have S: "page_scoped = page_normalized \<lparr> ed_messages := Some slice,
                 ed_thinkingBlocks := Some (message_blocks slice), ed_metadata := Some md \<rparr>"
    by (simp add: page_scoped_def R)
  have w: "map (\<lambda>m. num_or (m_wordCount m) 0) slice = [4, 1, 1]"
  proof -
    have "map (\<lambda>m. num_or (m_wordCount m) 0) slice
          = [map (\<lambda>m. num_or (m_wordCount m) 0) ms ! 1, map (\<lambda>m. num_or (m_wordCount m) 0) ms ! 2,
             map (\<lambda>m. num_or (m_wordCount m) 0) ms ! 3]"
      using len by (simp add: slice)
    then show ?thesis unfolding wcs by simp
  qed
  have i: "map m_id slice = [Str ''msg_1'', Str ''msg_2'', Str ''msg_3'']"
  proof -
    have "map m_id slice = [map m_id ms ! 1, map m_id ms ! 2, map m_id ms ! 3]"
      using len by (simp add: slice)
    then show ?thesis unfolding ids by simp
  qed
  have nonneg: "\<forall>m\<in>set slice. 0 \<le> num_or (m_wordCount m) 0"
  proof
    fix m assume "m \<in> set slice"
    then have "num_or (m_wordCount m) 0 \<in> set (map (\<lambda>m. num_or (m_wordCount m) 0) slice)" by simp
    then show "0 \<le> num_or (m_wordCount m) 0" unfolding w by auto
  qed
  have "sum_list (map (\<lambda>m. num_or (m_wordCount m) 0) slice) = 6" unfolding w by simp
  with total nonneg have t6: "md_totalWordCount md = Some 6" by simp
  have ni: "''thinking'' \<notin> set inherited_members" by code_simp
  have ev: "map_option (\<lambda>table. map_of table ''thinking'')
              (Option.bind (ed_metadata page_scoped) md_blockTypeBreakdown) = Some (Some (Count 2))"
       "map_option links (Option.bind (ed_metadata page_scoped) md_referenceIndex)
          = Some [link_to ''https://b.org/'']"
    by code_simp+
  have "Option.bind (ed_metadata page_scoped) md_userMessageCount
          = Option.bind (ed_metadata page_normalized) md_userMessageCount"
  proof (cases "ed_metadata page_normalized")
    case None
    have "ed_metadata page_normalized \<noteq> None" by code_simp
    with None show ?thesis by simp
  next
    case (Some whole)
    then show ?thesis by (simp add: S users base)
  qed
  moreover have "length page_messages = 6" by code_simp
  moreover have "map_option length (ed_messages page_normalized) = Some 6" by (simp add: ms len)
  moreover have "buildScopedExportData (range_options 2 4) page_normalized = Inr page_scoped"
    by (simp add: S R)
  moreover have "map_option (map m_id) (ed_messages page_scoped) = Some [Str ''msg_1'', Str ''msg_2'', Str ''msg_3'']"
    by (simp add: S i)
  moreover have "Option.bind (ed_metadata page_scoped) md_messageCount = Some 3"
    by (simp add: S count)
  moreover have "Option.bind (ed_metadata page_scoped) md_totalWordCount = Some 6"
    by (simp add: S t6)
  ultimately show ?thesis using ev by (intro conjI)
qed

text \<open>
  The claim as the specification words it, that every count of the scoped metadata is
  derived from the slice, fails on that document: the slice has one message of the user,
  two of the assistant and 23 characters, and the scoped metadata still counts the three
  user messages, the three assistant messages and the 33 characters of the whole
  conversation.
\<close>

theorem scoped_counts_counterexample:
  "map_option (map m_author) (ed_messages page_scoped)
     = Some [Str ''assistant'', Str ''user'', Str ''assistant'']
   \<and> map_option (map m_characterCount) (ed_messages page_scoped) = Some [Some 14, Some 5, Some 4]
   \<and> Option.bind (ed_metadata page_scoped) md_messageCount = Some 3
   \<and> Option.bind (ed_metadata page_scoped) md_userMessageCount = Some 3
   \<and> Option.bind (ed_metadata page_scoped) md_assistantMessageCount = Some 3
   \<and> Option.bind (ed_metadata page_scoped) md_totalCharacterCount = Some 33"
  by code_simp

section \<open>Idempotence of normalization\<close>

lemma take_Cons_hd: "take k t = a # as \<Longrightarrow> t \<noteq> [] \<and> hd t = a"
  by (cases t; cases k) auto

lemma rev_dropWhile_rev_take: "\<exists>k. rev (dropWhile P (rev t)) = take k t"
proof -
  have "rev (dropWhile P (rev t)) = take (length t - length (takeWhile P (rev t))) t"
    by (metis dropWhile_eq_drop rev_drop rev_rev_ident length_rev)
  then show ?thesis by blast
qed

lemma dropWhile_strip_end:
  assumes "t = [] \<or> \<not> P (hd t)"
  shows "dropWhile P (rev (dropWhile P (rev t))) = rev (dropWhile P (rev t))"
proof (cases "rev (dropWhile P (rev t))")
  case Nil
  show ?thesis unfolding Nil by simp
next
  case (Cons a as)
  from rev_dropWhile_rev_take[of P t] obtain k where "rev (dropWhile P (rev t)) = take k t" ..
  with Cons have "take k t = a # as" by simp
  from take_Cons_hd[OF this] assms have "\<not> P a" by blast
  then show ?thesis unfolding Cons by simp
qed

lemma dropWhile_rev_dropWhile:
  "dropWhile P (rev (dropWhile P (rev (dropWhile P s)))) = rev (dropWhile P (rev (dropWhile P s)))"
proof (rule dropWhile_strip_end)
  show "dropWhile P s = [] \<or> \<not> P (hd (dropWhile P s))"
    by (metis hd_dropWhile)
qed

lemma trim_idem: "trim (trim s) = trim s"
proof -
  have "dropWhile is_space (trim s) = trim s"
    unfolding trim_def by (rule dropWhile_rev_dropWhile)
  then show ?thesis
    by (simp add: trim_def[of "trim s"]) (simp add: trim_def)
qed

lemma num_or_idem: "num_or (Some (num_or w x)) x = num_or w x"
  by (cases w) auto

lemma or_default_idem: "d \<noteq> [] \<Longrightarrow> or_default (Str (or_default v d)) d' = or_default v d"
  by (cases v) auto

lemma block_signature_nonempty: "block_signature b \<noteq> []"
  by (simp add: block_signature_def)

lemma dedupe_message_blocks_dedupe_from:
  "dedupe_message_blocks S xs = dedupe_from block_signature S xs"
  by (induction xs arbitrary: S) (auto simp: Let_def block_signature_nonempty)

lemma dedupe_message_blocks_idem:
  "dedupe_message_blocks {} (dedupe_message_blocks {} xs) = dedupe_message_blocks {} xs"
  by (simp add: dedupe_message_blocks_dedupe_from dedupe_from_dedupe_from)

lemma dedupe_message_blocks_subset: "set (dedupe_message_blocks S xs) \<subseteq> set xs"
  by (simp add: dedupe_message_blocks_dedupe_from dedupe_from_subset)

lemma normalizeReferenceSet_idem:
  "normalizeReferenceSet (Some (normalizeReferenceSet r)) = normalizeReferenceSet r"
  by (cases r) (auto simp: normalizeReferenceSet_def empty_reference_set_def)

lemma normalize_message_fixpoint:
  assumes "normalize_message i m = Some m'"
  shows "normalize_message j m' = Some m'" and "is_string (m_content m')"
proof -
  let ?c = "trim (or_empty (m_content m))"
  let ?bs = "case m_thinkingBlocks m of None \<Rightarrow> []
             | Some bs \<Rightarrow> filter (\<lambda>block. trim (or_empty (b_content block)) \<noteq> []) bs"
  let ?B = "dedupe_message_blocks {} ?bs"
  from assms have keep: "\<not> (?c = [] \<and> ?B = [])"
    by (auto simp: normalize_message_def Let_def split: if_splits)
  from assms keep have m': "m' = m \<lparr>
                m_id := Str (or_default (m_id m) (''msg_'' @ string_of_nat i)),
                m_content := Str ?c,
                m_wordCount := Some (num_or (m_wordCount m) (num_or (Some (countWords ?c)) 0)),
                m_characterCount :=
                  Some (num_or (m_characterCount m) (num_or (Some (int (length ?c))) 0)),
                m_references := Some (normalizeReferenceSet (m_references m)),
                m_thinkingBlocks := Some ?B \<rparr>"
    by (auto simp: normalize_message_def Let_def split: if_splits)
  have allnb: "\<forall>b\<in>set ?bs. trim (or_empty (b_content b)) \<noteq> []"
    by (cases "m_thinkingBlocks m") auto
  have "set ?B \<subseteq> set ?bs" by (rule dedupe_message_blocks_subset)
  with allnb have "filter (\<lambda>block. trim (or_empty (b_content block)) \<noteq> []) ?B = ?B"
    by (auto simp: filter_id_conv)
  then have blocks: "dedupe_message_blocks {} (filter (\<lambda>block. trim (or_empty (b_content block)) \<noteq> []) ?B) = ?B"
    by (simp add: dedupe_message_blocks_idem)
  show "is_string (m_content m')" unfolding m' by simp
  show "normalize_message j m' = Some m'"
    unfolding m' normalize_message_def
    using keep
    by (simp add: Let_def trim_idem blocks num_or_idem or_default_idem normalizeReferenceSet_idem
          del: or_default.simps num_or.simps)
qed

lemma map_index_fixpoint:
  "(\<forall>x\<in>set xs. \<forall>j. f j x = Some x) \<Longrightarrow> map_index f i xs = map Some xs"
  by (induction xs arbitrary: i) auto

lemma map_filter_id_Some: "List.map_filter id (map Some xs) = xs"
  by (induction xs) (auto simp: List.map_filter_simps)

lemma normalize_messages_idem: "normalize_messages (normalize_messages ms) = normalize_messages ms"
proof -
  let ?M = "normalize_messages ms"
  have fixed: "\<forall>m'\<in>set ?M. (\<forall>j. normalize_message j m' = Some m') \<and> is_string (m_content m')"
  proof
    fix m' assume "m' \<in> set ?M"
    from normalize_messages_source[OF this] obtain m i where "normalize_message i m = Some m'" by blast
    from normalize_message_fixpoint[OF this] show "(\<forall>j. normalize_message j m' = Some m') \<and> is_string (m_content m')"
      by blast
  qed
  then have "filter (\<lambda>m. is_string (m_content m)) ?M = ?M" by (auto simp: filter_id_conv)
  moreover have "map_index normalize_message 0 ?M = map Some ?M"
    using fixed by (intro map_index_fixpoint) blast
  ultimately show ?thesis
    by (simp add: normalize_messages_def[of ?M] map_filter_id_Some)
qed

lemma message_blocks_normalized_subset:
  "set (message_blocks (normalize_messages ms)) \<subseteq> set (message_blocks ms)"
proof
  fix b assume "b \<in> set (message_blocks (normalize_messages ms))"
  then obtain m' where m0: "m' \<in> set (normalize_messages ms)"
      "b \<in> set (case m_thinkingBlocks m' of None \<Rightarrow> [] | Some bs \<Rightarrow> bs)"
    unfolding message_blocks_def by auto
  then obtain bs' where m': "m' \<in> set (normalize_messages ms)" "m_thinkingBlocks m' = Some bs'" "b \<in> set bs'"
    by (cases "m_thinkingBlocks m'") auto
  from normalize_messages_source[OF m'(1)] obtain m i where
    m: "m \<in> set ms" "normalize_message i m = Some m'" by blast
  from m(2) m'(2) have "bs' = dedupe_message_blocks {}
       (case m_thinkingBlocks m of None \<Rightarrow> []
             | Some bs \<Rightarrow> filter (\<lambda>block. trim (or_empty (b_content block)) \<noteq> []) bs)"
    by (auto simp: normalize_message_def Let_def split: if_splits)
  with m'(3) dedupe_message_blocks_subset
  have "b \<in> set (case m_thinkingBlocks m of None \<Rightarrow> []
             | Some bs \<Rightarrow> filter (\<lambda>block. trim (or_empty (b_content block)) \<noteq> []) bs)"
    by blast
  then obtain bs where "m_thinkingBlocks m = Some bs" "b \<in> set bs"
    by (cases "m_thinkingBlocks m") auto
  with m(1) show "b \<in> set (message_blocks ms)"
    by (auto simp: message_blocks_def intro!: bexI[of _ m])
qed

lemma recompute_metadata_idem:
  "recompute_metadata (recompute_metadata md D M) D M = recompute_metadata md D M"
  by (cases "md_blockTypeBreakdown md") (auto simp: recompute_metadata_def Let_def)

lemma sigs_seen_Cons:
  "sigs_seen (b # xs) = (if blank_block b then sigs_seen xs else insert (block_signature b) (sigs_seen xs))"
  by (auto simp: sigs_seen_def)

lemma dedupe_aggregate_append:
  "dedupe_aggregate S i (xs @ ys) =
     dedupe_aggregate S i xs @ dedupe_aggregate (S \<union> sigs_seen xs) (i + length xs) ys"
proof (induction xs arbitrary: S i)
  case Nil
  then show ?case by (simp add: sigs_seen_def)
next
  case (Cons b xs)
  show ?case
  proof (cases "blank_block b \<or> block_signature b \<in> S")
    case True
    then have "S \<union> sigs_seen (b # xs) = S \<union> sigs_seen xs"
      by (auto simp: sigs_seen_Cons)
    with True Cons.IH[of S "Suc i"] show ?thesis
      by (simp add: dedupe_aggregate_step del: dedupe_aggregate.simps(2))
  next
    case False
    then have "S \<union> sigs_seen (b # xs) = insert (block_signature b) S \<union> sigs_seen xs"
      by (auto simp: sigs_seen_Cons)
    with False Cons.IH[of "insert (block_signature b) S" "Suc i"] show ?thesis
      by (simp add: dedupe_aggregate_step del: dedupe_aggregate.simps(2))
  qed
qed

lemma dedupe_aggregate_all_seen:
  "(\<forall>y\<in>set ys. blank_block y \<or> block_signature y \<in> S) \<Longrightarrow> dedupe_aggregate S i ys = []"
  by (induction ys arbitrary: i) (simp_all add: dedupe_aggregate_step del: dedupe_aggregate.simps(2))

lemma normalized_block_extracted:
  assumes "extracted_block b" and "\<not> blank_block b"
  shows "block_signature (normalized_block i b) = block_signature b"
    and "\<not> blank_block (normalized_block i b)"
    and "normalized_block j (normalized_block i b) = normalized_block i b"
    and "extracted_block (normalized_block i b)"
proof -
  from assms have c: "trim (or_empty (b_content b)) \<noteq> []"
    by (auto simp: extracted_block_def blank_block_def blank_def)
  have nb: "normalized_block i b =
       \<lparr> b_id = Str (or_default (b_id b) (''thinking_'' @ string_of_nat i)),
         b_type = Str (or_default (b_type b) ''thinking''),
         b_summary = Str (trim (or_empty (b_summary b))),
         b_content = Str (trim (or_empty (b_content b))),
         b_wordCount = Some (num_or (b_wordCount b) (countWords (trim (or_empty (b_content b))))),
         b_characterCount = Some (num_or (b_characterCount b) (int (length (trim (or_empty (b_content b)))))),
         b_html = Str (or_empty (b_html b)),
         b_richHtml = Undefined,
         b_structuredData = b_structuredData b,
         b_references = None,
         b_expanded = None,
         b_other = [] \<rparr>"
    using c by (simp add: normalized_block_def Let_def)
  show "block_signature (normalized_block i b) = block_signature b"
    unfolding nb by (simp add: block_signature_def trim_idem)
  show "\<not> blank_block (normalized_block i b)"
    unfolding nb using c by (simp add: blank_block_def blank_def trim_idem)
  show "extracted_block (normalized_block i b)"
    unfolding nb using c by (simp add: extracted_block_def blank_def trim_idem)
  show "normalized_block j (normalized_block i b) = normalized_block i b"
    unfolding nb normalized_block_def[of j] using c
    by (simp add: Let_def trim_idem num_or_idem or_default_idem
          del: or_default.simps num_or.simps)
qed

lemma dedupe_aggregate_fixpoint:
  assumes "\<forall>b\<in>set xs. extracted_block b"
  shows "dedupe_aggregate S j (dedupe_aggregate S i xs) = dedupe_aggregate S i xs"
    and "S \<union> sigs_seen (dedupe_aggregate S i xs) = S \<union> sigs_seen xs"
  using assms
proof (induction xs arbitrary: S i j)
  case Nil
  { case 1 show ?case by simp }
  { case 2 show ?case by simp }
next
  case (Cons b xs)
  { case 1
    show ?case
    proof (cases "blank_block b \<or> block_signature b \<in> S")
      case True
      with Cons.IH(1)[of S j "Suc i"] 1 show ?thesis
        by (simp add: dedupe_aggregate_step del: dedupe_aggregate.simps(2))
    next
      case False
      with 1 have e: "extracted_block b" "\<not> blank_block b" by auto
      from False have l: "dedupe_aggregate S i (b # xs) =
          normalized_block i b # dedupe_aggregate (insert (block_signature b) S) (Suc i) xs"
        by (simp add: dedupe_aggregate_step del: dedupe_aggregate.simps(2))
      show ?thesis
        unfolding l
        using False Cons.IH(1)[of "insert (block_signature b) S" "Suc j" "Suc i"] 1
          normalized_block_extracted[OF e]
        by (simp add: dedupe_aggregate_step del: dedupe_aggregate.simps(2))
    qed }
  { case 2
    show ?case
    proof (cases "blank_block b \<or> block_signature b \<in> S")
      case True
      then have "S \<union> sigs_seen (b # xs) = S \<union> sigs_seen xs"
        by (auto simp: sigs_seen_Cons)
      with True Cons.IH(2)[of S "Suc i"] 2 show ?thesis
        by (simp add: dedupe_aggregate_step del: dedupe_aggregate.simps(2))
    next
      case False
      with 2 have e: "extracted_block b" "\<not> blank_block b" by auto
      from False have l: "dedupe_aggregate S i (b # xs) =
          normalized_block i b # dedupe_aggregate (insert (block_signature b) S) (Suc i) xs"
        by (simp add: dedupe_aggregate_step del: dedupe_aggregate.simps(2))
      have "S \<union> sigs_seen (normalized_block i b # dedupe_aggregate (insert (block_signature b) S) (Suc i) xs)
            = insert (block_signature b) S \<union> sigs_seen (dedupe_aggregate (insert (block_signature b) S) (Suc i) xs)"
        using normalized_block_extracted(1,2)[OF e, of i] by (simp add: sigs_seen_Cons)
      also have "\<dots> = insert (block_signature b) S \<union> sigs_seen xs"
        using Cons.IH(2)[of "insert (block_signature b) S" "Suc i"] 2 by simp
      also have "\<dots> = S \<union> sigs_seen (b # xs)"
        using False by (auto simp: sigs_seen_Cons)
      finally show ?thesis unfolding l .
    qed }
qed

lemma aggregate_blocks_eq:
  "aggregate_blocks d ms = (case ed_thinkingBlocks d of None \<Rightarrow> [] | Some bs \<Rightarrow> bs) @ message_blocks ms"
  by (simp add: aggregate_blocks_def message_blocks_def)

lemma second_pass_flat_list:
  assumes "\<forall>b\<in>set (aggregate_blocks d ms). extracted_block b"
  shows "dedupe_aggregate {} 0 (dedupe_aggregate {} 0 (aggregate_blocks d ms) @ message_blocks (normalize_messages ms))
         = dedupe_aggregate {} 0 (aggregate_blocks d ms)"
proof -
  let ?agg = "aggregate_blocks d ms"
  let ?D = "dedupe_aggregate {} 0 ?agg"
  let ?B = "message_blocks (normalize_messages ms)"
  have seen: "sigs_seen ?D = sigs_seen ?agg"
    using dedupe_aggregate_fixpoint(2)[OF assms, of "{}" 0] by simp
  have "set ?B \<subseteq> set ?agg"
    using message_blocks_normalized_subset[of ms] by (auto simp: aggregate_blocks_eq)
  then have "\<forall>y\<in>set ?B. blank_block y \<or> block_signature y \<in> sigs_seen ?agg"
    by (auto simp: sigs_seen_def)
  then have rest: "dedupe_aggregate ({} \<union> sigs_seen ?D) (0 + length ?D) ?B = []"
    unfolding seen by (simp add: dedupe_aggregate_all_seen)
  have "dedupe_aggregate {} 0 (?D @ ?B) = dedupe_aggregate {} 0 ?D @ dedupe_aggregate ({} \<union> sigs_seen ?D) (0 + length ?D) ?B"
    by (rule dedupe_aggregate_append)
  also have "\<dots> = ?D"
    unfolding rest using dedupe_aggregate_fixpoint(1)[OF assms, of "{}" 0 0] by simp
  finally show ?thesis .
qed

lemma normalize_idem:
  assumes "extracted d"
  shows "normalizeAndValidateExportData (snd (normalizeAndValidateExportData (Some d)))
         = normalizeAndValidateExportData (Some d)"
proof (cases "ed_messages d")
  case None
  then show ?thesis by (simp add: normalizeAndValidateExportData_def)
next
  case (Some ms)
  let ?D = "dedupe_aggregate {} 0 (aggregate_blocks d ms)"
  let ?M = "normalize_messages ms"
  let ?md = "recompute_metadata (case ed_metadata d of None \<Rightarrow> empty_metadata | Some md \<Rightarrow> md) ?D ?M"
  let ?d1 = "d \<lparr> ed_thinkingBlocks := Some ?D, ed_messages := Some ?M, ed_metadata := Some ?md \<rparr>"
  from assms Some have ex: "\<forall>b\<in>set (aggregate_blocks d ms). extracted_block b"
    by (simp add: extracted_def list_all_iff)
  have first: "normalizeAndValidateExportData (Some d) =
      (if ?M = [] then Some (Error ''No messages found to export'') else None, Some ?d1)"
    using Some by (simp add: normalizeAndValidateExportData_def Let_def)
  have agg1: "aggregate_blocks ?d1 ?M = ?D @ message_blocks ?M"
    by (simp add: aggregate_blocks_eq)
  have second: "normalizeAndValidateExportData (Some ?d1) =
      (if ?M = [] then Some (Error ''No messages found to export'') else None, Some ?d1)"
    unfolding normalizeAndValidateExportData_def
    by (simp add: Let_def agg1 second_pass_flat_list[OF ex] normalize_messages_idem
          recompute_metadata_idem)
  show ?thesis unfolding first by (simp only: snd_conv second)
qed

text \<open>
  Claim C1. For an extracted document, running the pass a second time, on the document
  the first run leaves behind, has the same outcome as the first run and leaves the same
  document: the same messages, the same flat list of blocks, the same metadata.
\<close>

theorem normalization_idempotent:
  assumes "extracted d"
  shows "normalizeAndValidateExportData (snd (normalizeAndValidateExportData (Some d)))
         = normalizeAndValidateExportData (Some d)"
  using assms by (rule normalize_idem)

text \<open>The theorem at a document with one assistant turn and two colliding blocks.\<close>

theorem normalization_idempotent_witness:
  "extracted collide_data
   \<and> normalizeAndValidateExportData (snd (normalizeAndValidateExportData (Some collide_data)))
     = normalizeAndValidateExportData (Some collide_data)
   \<and> fst (normalizeAndValidateExportData (Some collide_data)) = None"
proof -
  have e: "extracted collide_data" by code_simp
  have n: "fst (normalizeAndValidateExportData (Some collide_data)) = None" by code_simp
  from normalization_idempotent[OF e] e n show ?thesis by simp
qed

text \<open>
  The shape of extracted blocks is needed. A block with a summary and blank content is
  normalized to a block whose content is the summary, and only the second run sees it
  collide with a block that has that summary as content.
\<close>

lemma normalization_outside_extracted:
  "\<not> extracted summary_only_data
   \<and> normalizeAndValidateExportData (snd (normalizeAndValidateExportData (Some summary_only_data)))
     \<noteq> normalizeAndValidateExportData (Some summary_only_data)"
  by code_simp

section \<open>The web-search scenario\<close>

text \<open>
  Claim C8. The content \<open>Searched the web\<close>, \<open>3 results\<close>, \<open>github.com\<close>,
  \<open>stackoverflow.com\<close> on four lines, with an empty summary and no rich HTML, is classified
  \<open>web_search\<close>; the parser returns the one query \<open>the web\<close>, what is left of the line
  \<open>Searched the web\<close> once the prefix \<open>Searched\<close> is removed, and one result, the title
  \<open>3 results\<close> with the domain \<open>github.com\<close>.
\<close>

theorem classify_searched_the_web:
  "detectBlockType searched_content '''' '''' = ''web_search''
   \<and> parseWebSearchContent searched_content '''' =
       \<lparr> queries = [''the web''],
         results = [\<lparr> sr_title = ''3 results'', sr_url = Undefined, sr_domain = Str ''github.com'' \<rparr>] \<rparr>"
  by code_simp

section \<open>Facts about the matcher\<close>









lemma before_simps [simp]:
  "before p [] = p" "before p (u @ [c]) = Some c" "before p (c # u) = before (Some c) u"
  by (simp_all add: before_def)













lemma leads_alt_right: "matches r1 pos = [] \<Longrightarrow> leads r2 pos y \<Longrightarrow> leads (Alt r1 r2) pos y"
  by (auto simp add: leads_def matches.simps)





section \<open>The substitutions on separate words\<close>




lemma phone_within: "within (\<lambda>c. is_digit c \<or> is_separator c \<or> c \<in> set ''+()'') phone_regex"
  by (simp add: phone_regex_def Opt_def eval_nat_numeral is_digit_def)


































































section \<open>What the JSON text includes\<close>















section \<open>Redaction of the JSON export\<close>













end
